theory Spec2Isabelle
  imports Main "HOL-Library.Word"
begin

unbundle bit_operations_syntax

section \<open>Configuration of the router-advertisement daemon (config.go)\<close>

subsection \<open>Data model\<close>

text \<open>
  The three structs of config.go become records. A Go \<open>int\<close> field is an \<open>int\<close>:
  the code only compares these fields with constants and with each other, so no
  arithmetic can wrap. A pointer (\<open>*int\<close>, \<open>*InterfaceConfig\<close>, \<open>*PrefixConfig\<close>)
  is an \<open>option\<close> with \<open>None\<close> for \<open>nil\<close>. A slice is a \<open>list option\<close> with
  \<open>None\<close> for the nil slice, because the \<open>required\<close> constraint on
  \<open>Config.Interfaces\<close> tells a nil slice from an empty one.
\<close>

type_synonym 'a slice = "'a list option"

definition elems :: "'a slice \<Rightarrow> 'a list" where
  "elems s = (case s of None \<Rightarrow> [] | Some xs \<Rightarrow> xs)"

record PrefixConfig =
  Prefix :: string
  OnLink :: bool
  Autonomous :: bool
  ValidLifetimeSeconds :: "int option"
  PreferredLifetimeSeconds :: "int option"

record InterfaceConfig =
  Name :: string
  RAIntervalMilliseconds :: int
  CurrentHopLimit :: int
  Managed :: bool
  Other :: bool
  RouterLifetimeSeconds :: int
  ReachableTimeMilliseconds :: int
  RetransmitTimeMilliseconds :: int
  Prefixes :: "PrefixConfig option slice"

record Config =
  Interfaces :: "InterfaceConfig option slice"

subsection \<open>The standard library's prefixes (net/netip)\<close>

text \<open>
  \<open>netip.ParsePrefix\<close> yields an address without zone and a prefix length. An address
  is IPv4 (32 bits) or IPv6 (128 bits); two \<open>netip.Prefix\<close> values are equal (Go's
  \<open>==\<close> on the struct) when address and length are equal. The address of a parsed
  prefix is kept as written: it is not masked to the prefix length.
\<close>

datatype netip_Addr = Addr4 "32 word" | Addr6 "128 word"

datatype netip_Prefix = Prefix_of (Addr: netip_Addr) (Bits: nat)

fun Is4 :: "netip_Addr \<Rightarrow> bool" where
  "Is4 (Addr4 w) = True"
| "Is4 (Addr6 w) = False"

fun BitLen :: "netip_Addr \<Rightarrow> nat" where
  "BitLen (Addr4 w) = 32"
| "BitLen (Addr6 w) = 128"

definition IsValid :: "netip_Prefix \<Rightarrow> bool" where
  "IsValid p = (Bits p \<le> BitLen (Addr p))"

text \<open>
  \<open>Addr.Prefix(b)\<close> keeps the top \<open>b\<close> bits of the address and clears the rest; it
  fails (\<open>None\<close>) when \<open>b\<close> exceeds the address length.
\<close>

fun Addr_Prefix :: "netip_Addr \<Rightarrow> nat \<Rightarrow> netip_Prefix option" where
  "Addr_Prefix (Addr4 w) b =
     (if b > 32 then None else Some (Prefix_of (Addr4 (w AND NOT (mask (32 - b)))) b))"
| "Addr_Prefix (Addr6 w) b =
     (if b > 128 then None else Some (Prefix_of (Addr6 (w AND NOT (mask (128 - b)))) b))"

text \<open>\<open>Prefix.Overlaps\<close>, branch by branch.\<close>

definition Overlaps :: "netip_Prefix \<Rightarrow> netip_Prefix \<Rightarrow> bool" where
  "Overlaps p o' =
     (if \<not> IsValid p \<or> \<not> IsValid o' then False
      else if p = o' then True
      else if Is4 (Addr p) \<noteq> Is4 (Addr o') then False
      else let minBits = (if Bits p < Bits o' then Bits p else Bits o') in
        if minBits = 0 then True
        else (case Addr_Prefix (Addr p) minBits of
                None \<Rightarrow> False
              | Some p' \<Rightarrow>
                 (case Addr_Prefix (Addr o') minBits of
                    None \<Rightarrow> False
                  | Some o'' \<Rightarrow> Addr p' = Addr o'')))"

text \<open>
  The two string-level functions of the libraries that config.go calls are parameters
  of the model: \<open>ParsePrefix\<close> is \<open>netip.ParsePrefix\<close> (\<open>None\<close> when it returns an
  error), and \<open>isCIDRv6\<close> is the validator's built-in \<open>cidrv6\<close> constraint
  (\<open>net.ParseCIDR\<close> succeeds and the address is not IPv4). Every theorem holds for
  whatever these two functions compute.
\<close>

record netlib =
  ParsePrefix :: "string \<Rightarrow> netip_Prefix option"
  isCIDRv6 :: "string \<Rightarrow> bool"

subsection \<open>Defaulting (defaults.Set)\<close>

text \<open>
  \<open>defaults.Set\<close> walks the struct: a field with a \<open>default\<close> tag that holds its
  zero value receives the default; a nil \<open>*int\<close> with a default is allocated and set; a
  non-nil \<open>*int\<close> is left alone, also when it points to 0. Slices are walked element by
  element, nil elements are skipped. \<open>CurrentHopLimit\<close> has the default 0, which
  changes nothing.
\<close>

definition default_int :: "int \<Rightarrow> int \<Rightarrow> int" where
  "default_int d v = (if v = 0 then d else v)"

definition default_ptr :: "int \<Rightarrow> int option \<Rightarrow> int option" where
  "default_ptr d p = (case p of None \<Rightarrow> Some d | Some v \<Rightarrow> Some v)"

definition map_slice :: "('a \<Rightarrow> 'a) \<Rightarrow> 'a option slice \<Rightarrow> 'a option slice" where
  "map_slice f s = map_option (map (map_option f)) s"

definition defaults_PrefixConfig :: "PrefixConfig \<Rightarrow> PrefixConfig" where
  "defaults_PrefixConfig p =
     p\<lparr>ValidLifetimeSeconds := default_ptr 2592000 (ValidLifetimeSeconds p),
       PreferredLifetimeSeconds := default_ptr 604800 (PreferredLifetimeSeconds p)\<rparr>"

definition defaults_InterfaceConfig :: "InterfaceConfig \<Rightarrow> InterfaceConfig" where
  "defaults_InterfaceConfig i =
     i\<lparr>RAIntervalMilliseconds := default_int 600000 (RAIntervalMilliseconds i),
       CurrentHopLimit := default_int 0 (CurrentHopLimit i),
       Prefixes := map_slice defaults_PrefixConfig (Prefixes i)\<rparr>"

definition defaults_Set :: "Config \<Rightarrow> Config" where
  "defaults_Set c = c\<lparr>Interfaces := map_slice defaults_InterfaceConfig (Interfaces c)\<rparr>"

subsection \<open>Validation (validator.Struct)\<close>

text \<open>
  A validation error names the field by its namespace, such as
  \<open>Config.Interfaces[0].Prefixes[1].Prefix\<close>, and the constraint (tag) that failed.
\<close>

datatype seg = Fld string | Idx nat

type_synonym namespace = "seg list"

datatype FieldError = FieldError (Namespace: namespace) (Tag: string)

type_synonym ValidationErrors = "FieldError list"

text \<open>
  The constraints of one field run in the order of the tag; the first that fails
  records one error and ends the field (a later \<open>dive\<close> is then not reached).
\<close>

fun run_tags :: "namespace \<Rightarrow> (string \<times> bool) list \<Rightarrow> ValidationErrors" where
  "run_tags ns [] = []"
| "run_tags ns ((t, ok) # ts) = (if ok then run_tags ns ts else [FieldError ns t])"

text \<open>
  \<open>dive,required\<close> on a slice of pointers: a nil element fails \<open>required\<close>; a non-nil
  element passes it and its struct is validated under the namespace \<open>field[i]\<close>.
\<close>

fun dive :: "(namespace \<Rightarrow> 'a \<Rightarrow> ValidationErrors) \<Rightarrow> namespace \<Rightarrow> nat \<Rightarrow> 'a option list
    \<Rightarrow> ValidationErrors" where
  "dive f ns i [] = []"
| "dive f ns i (None # xs) = FieldError (ns @ [Idx i]) ''required'' # dive f ns (Suc i) xs"
| "dive f ns i (Some x # xs) = f (ns @ [Idx i]) x @ dive f ns (Suc i) xs"

text \<open>
  The custom constraint \<open>non_nil_and_unique_name\<close>: the loop over the slice with
  the set of names seen so far.
\<close>

fun unique_name_loop :: "string set \<Rightarrow> InterfaceConfig option list \<Rightarrow> bool" where
  "unique_name_loop names [] = True"
| "unique_name_loop names (None # xs) = False"
| "unique_name_loop names (Some iface # xs) =
     (if Name iface \<in> names then False
      else unique_name_loop (insert (Name iface) names) xs)"

definition non_nil_and_unique_name :: "InterfaceConfig option list \<Rightarrow> bool" where
  "non_nil_and_unique_name xs = unique_name_loop {} xs"

text \<open>
  The custom constraint \<open>non_nil_and_non_overlapping_prefix\<close>. The first loop
  collects the prefixes that parse (\<open>None\<close>: it returned false at a nil element); a
  string that does not parse is skipped. The second compares every pair of collected
  prefixes, a prefix with itself included, and fails on \<open>p0 != p1 && p0.Overlaps(p1)\<close>.
\<close>

fun collect_prefixes :: "netlib \<Rightarrow> netip_Prefix list \<Rightarrow> PrefixConfig option list
    \<Rightarrow> netip_Prefix list option" where
  "collect_prefixes env prefixes [] = Some prefixes"
| "collect_prefixes env prefixes (None # xs) = None"
| "collect_prefixes env prefixes (Some prefixElem # xs) =
     (case ParsePrefix env (Prefix prefixElem) of
        None \<Rightarrow> collect_prefixes env prefixes xs
      | Some p \<Rightarrow> collect_prefixes env (prefixes @ [p]) xs)"

definition no_overlap :: "netip_Prefix list \<Rightarrow> bool" where
  "no_overlap prefixes =
     list_all (\<lambda>p0. list_all (\<lambda>p1. \<not> (p0 \<noteq> p1 \<and> Overlaps p0 p1)) prefixes) prefixes"

definition non_nil_and_non_overlapping_prefix :: "netlib \<Rightarrow> PrefixConfig option list \<Rightarrow> bool" where
  "non_nil_and_non_overlapping_prefix env xs =
     (case collect_prefixes env [] xs of
        None \<Rightarrow> False
      | Some prefixes \<Rightarrow> no_overlap prefixes)"

text \<open>
  The tags of \<open>PrefixConfig\<close>. On a pointer field \<open>required\<close> fails for nil and
  passes for any non-nil pointer (also one to 0); the other constraints see the value
  pointed to. \<open>ltefield\<close> fails when the other field is nil.
\<close>

definition validate_lifetime :: "namespace \<Rightarrow> int option \<Rightarrow> (string \<times> (int \<Rightarrow> bool)) list
    \<Rightarrow> ValidationErrors" where
  "validate_lifetime ns p tags =
     (case p of
        None \<Rightarrow> [FieldError ns ''required'']
      | Some v \<Rightarrow> run_tags ns ((''required'', True) # map (\<lambda>(t, f). (t, f v)) tags))"

definition ltefield :: "int option \<Rightarrow> int \<Rightarrow> bool" where
  "ltefield other v = (case other of None \<Rightarrow> False | Some w \<Rightarrow> v \<le> w)"

definition validate_PrefixConfig :: "netlib \<Rightarrow> namespace \<Rightarrow> PrefixConfig \<Rightarrow> ValidationErrors" where
  "validate_PrefixConfig env ns p =
     run_tags (ns @ [Fld ''Prefix''])
       [(''required'', Prefix p \<noteq> []), (''cidrv6'', isCIDRv6 env (Prefix p))]
     @ validate_lifetime (ns @ [Fld ''ValidLifetimeSeconds'']) (ValidLifetimeSeconds p)
         [(''gte'', \<lambda>v. 0 \<le> v), (''lte'', \<lambda>v. v \<le> 4294967295)]
     @ validate_lifetime (ns @ [Fld ''PreferredLifetimeSeconds'']) (PreferredLifetimeSeconds p)
         [(''gte'', \<lambda>v. 0 \<le> v), (''ltefield'', ltefield (ValidLifetimeSeconds p))]"

definition validate_Prefixes :: "netlib \<Rightarrow> namespace \<Rightarrow> PrefixConfig option slice
    \<Rightarrow> ValidationErrors" where
  "validate_Prefixes env ns ps =
     (if \<not> non_nil_and_non_overlapping_prefix env (elems ps)
      then [FieldError ns ''non_nil_and_non_overlapping_prefix'']
      else dive (validate_PrefixConfig env) ns 0 (elems ps))"

definition validate_InterfaceConfig :: "netlib \<Rightarrow> namespace \<Rightarrow> InterfaceConfig
    \<Rightarrow> ValidationErrors" where
  "validate_InterfaceConfig env ns i =
     run_tags (ns @ [Fld ''Name'']) [(''required'', Name i \<noteq> [])]
     @ run_tags (ns @ [Fld ''RAIntervalMilliseconds''])
         [(''required'', RAIntervalMilliseconds i \<noteq> 0),
          (''gte'', 70 \<le> RAIntervalMilliseconds i),
          (''lte'', RAIntervalMilliseconds i \<le> 1800000)]
     @ run_tags (ns @ [Fld ''CurrentHopLimit''])
         [(''gte'', 0 \<le> CurrentHopLimit i), (''lte'', CurrentHopLimit i \<le> 255)]
     @ run_tags (ns @ [Fld ''RouterLifetimeSeconds''])
         [(''gte'', 0 \<le> RouterLifetimeSeconds i), (''lte'', RouterLifetimeSeconds i \<le> 65535)]
     @ run_tags (ns @ [Fld ''ReachableTimeMilliseconds''])
         [(''gte'', 0 \<le> ReachableTimeMilliseconds i),
          (''lte'', ReachableTimeMilliseconds i \<le> 4294967295)]
     @ run_tags (ns @ [Fld ''RetransmitTimeMilliseconds''])
         [(''gte'', 0 \<le> RetransmitTimeMilliseconds i),
          (''lte'', RetransmitTimeMilliseconds i \<le> 4294967295)]
     @ validate_Prefixes env (ns @ [Fld ''Prefixes'']) (Prefixes i)"

text \<open>
  \<open>Config.Interfaces\<close>: \<open>required\<close> (the slice is not nil), then the uniqueness
  constraint, then \<open>dive,required\<close>.
\<close>

definition validate_Struct :: "netlib \<Rightarrow> Config \<Rightarrow> ValidationErrors" where
  "validate_Struct env c =
     (let ns = [Fld ''Config'', Fld ''Interfaces''] in
      case Interfaces c of
        None \<Rightarrow> [FieldError ns ''required'']
      | Some xs \<Rightarrow>
          if \<not> non_nil_and_unique_name xs then [FieldError ns ''non_nil_and_unique_name'']
          else dive (validate_InterfaceConfig env) ns 0 xs)"

text \<open>
  \<open>defaultAndValidate\<close> changes the receiver in place and returns the error; the model
  returns both: the defaulted configuration, and \<open>None\<close> for a nil error or the
  validation errors.
\<close>

definition defaultAndValidate :: "netlib \<Rightarrow> Config \<Rightarrow> Config \<times> ValidationErrors option" where
  "defaultAndValidate env c =
     (let c' = defaults_Set c; verrs = validate_Struct env c'
      in (c', if verrs = [] then None else Some verrs))"

subsection \<open>Parsing (ParseConfigJSON, ParseConfigYAML, ParseConfigYAMLFile)\<close>

text \<open>
  The decoders of encoding/json and yaml.v3 and \<open>os.Open\<close> are parameters: a
  decoder maps the bytes of the reader to an error (\<open>Inl\<close>) or to the decoded
  \<open>Config\<close>; \<open>os_Open\<close> maps a path to an error or to the bytes of the file.
  A parse function returns \<open>(nil, err)\<close> as \<open>Inl err\<close> and \<open>(&c, nil)\<close> as
  \<open>Inr c\<close>.
\<close>

definition ParseConfigJSON :: "(string \<Rightarrow> 'e + Config) \<Rightarrow> string \<Rightarrow> 'e + Config" where
  "ParseConfigJSON json_Decode r =
     (case json_Decode r of Inl err \<Rightarrow> Inl err | Inr c \<Rightarrow> Inr c)"

definition ParseConfigYAML :: "(string \<Rightarrow> 'e + Config) \<Rightarrow> string \<Rightarrow> 'e + Config" where
  "ParseConfigYAML yaml_Decode r =
     (case yaml_Decode r of Inl err \<Rightarrow> Inl err | Inr c \<Rightarrow> Inr c)"

definition ParseConfigYAMLFile ::
    "(string \<Rightarrow> 'e + string) \<Rightarrow> (string \<Rightarrow> 'e + Config) \<Rightarrow> string \<Rightarrow> 'e + Config" where
  "ParseConfigYAMLFile os_Open yaml_Decode path =
     (case os_Open path of
        Inl err \<Rightarrow> Inl err
      | Inr f \<Rightarrow> ParseConfigYAML yaml_Decode f)"

subsection \<open>Vocabulary of the statements\<close>

text \<open>
  \<open>iface_at c i\<close> is the interface configuration \<open>c.Interfaces[i]\<close> when the index
  is in range and the element is not nil; \<open>prefix_at x j\<close> likewise for
  \<open>x.Prefixes[j]\<close>. \<open>ns_iface i\<close> and \<open>ns_prefix i j\<close> are the namespaces
  \<open>Config.Interfaces[i]\<close> and \<open>Config.Interfaces[i].Prefixes[j]\<close>, and
  \<open>errors_at ns r\<close> are the errors of a result \<open>r\<close> reported for the namespace
  \<open>ns\<close>. The effective lifetimes are the values validation sees: the field, or its
  default when the pointer is nil.
\<close>

definition ns_Interfaces :: namespace where
  "ns_Interfaces = [Fld ''Config'', Fld ''Interfaces'']"

definition ns_iface :: "nat \<Rightarrow> namespace" where
  "ns_iface i = ns_Interfaces @ [Idx i]"

definition ns_prefix :: "nat \<Rightarrow> nat \<Rightarrow> namespace" where
  "ns_prefix i j = ns_iface i @ [Fld ''Prefixes'', Idx j]"

definition iface_at :: "Config \<Rightarrow> nat \<Rightarrow> InterfaceConfig option" where
  "iface_at c i = (if i < length (elems (Interfaces c)) then elems (Interfaces c) ! i else None)"

definition prefix_at :: "InterfaceConfig \<Rightarrow> nat \<Rightarrow> PrefixConfig option" where
  "prefix_at x j = (if j < length (elems (Prefixes x)) then elems (Prefixes x) ! j else None)"

definition errors_at :: "namespace \<Rightarrow> ValidationErrors option \<Rightarrow> ValidationErrors" where
  "errors_at ns r = (case r of None \<Rightarrow> [] | Some verrs \<Rightarrow> filter (\<lambda>e. Namespace e = ns) verrs)"

definition effective_valid :: "PrefixConfig \<Rightarrow> int" where
  "effective_valid p = (case ValidLifetimeSeconds p of None \<Rightarrow> 2592000 | Some v \<Rightarrow> v)"

definition effective_preferred :: "PrefixConfig \<Rightarrow> int" where
  "effective_preferred p = (case PreferredLifetimeSeconds p of None \<Rightarrow> 604800 | Some v \<Rightarrow> v)"

definition required_free :: "ValidationErrors \<Rightarrow> bool" where
  "required_free verrs = list_all (\<lambda>e. Tag e \<noteq> ''required'') verrs"

text \<open>
  The invariants of the data model, as the field comments of config.go state them, read
  on the effective values: an interval that is zero counts as omitted, a lifetime whose
  pointer is nil counts as its default. The two custom constraints enter as the code
  has them.
\<close>

definition prefix_valid :: "netlib \<Rightarrow> PrefixConfig \<Rightarrow> bool" where
  "prefix_valid env p =
     (Prefix p \<noteq> [] \<and> isCIDRv6 env (Prefix p)
      \<and> 0 \<le> effective_valid p \<and> effective_valid p \<le> 4294967295
      \<and> 0 \<le> effective_preferred p \<and> effective_preferred p \<le> effective_valid p)"

definition all_present :: "('a \<Rightarrow> bool) \<Rightarrow> 'a option list \<Rightarrow> bool" where
  "all_present P xs = list_all (\<lambda>x. case x of None \<Rightarrow> False | Some y \<Rightarrow> P y) xs"

definition interface_valid :: "netlib \<Rightarrow> InterfaceConfig \<Rightarrow> bool" where
  "interface_valid env x =
     (Name x \<noteq> []
      \<and> (RAIntervalMilliseconds x = 0
           \<or> (70 \<le> RAIntervalMilliseconds x \<and> RAIntervalMilliseconds x \<le> 1800000))
      \<and> 0 \<le> CurrentHopLimit x \<and> CurrentHopLimit x \<le> 255
      \<and> 0 \<le> RouterLifetimeSeconds x \<and> RouterLifetimeSeconds x \<le> 65535
      \<and> 0 \<le> ReachableTimeMilliseconds x \<and> ReachableTimeMilliseconds x \<le> 4294967295
      \<and> 0 \<le> RetransmitTimeMilliseconds x \<and> RetransmitTimeMilliseconds x \<le> 4294967295
      \<and> non_nil_and_non_overlapping_prefix env (elems (Prefixes x))
      \<and> all_present (prefix_valid env) (elems (Prefixes x)))"

definition config_valid :: "netlib \<Rightarrow> Config \<Rightarrow> bool" where
  "config_valid env c =
     (case Interfaces c of
        None \<Rightarrow> False
      | Some xs \<Rightarrow> non_nil_and_unique_name xs \<and> all_present (interface_valid env) xs)"

text \<open>
  \<open>with_interval c i v\<close> is the configuration \<open>c\<close> with the interval of interface
  \<open>i\<close> replaced by \<open>v\<close>, and \<open>with_lifetimes c i j vl pl\<close> is \<open>c\<close> with the two
  lifetime pointers of prefix \<open>j\<close> of interface \<open>i\<close> replaced. Replacing a field
  by a value that is known to pass says that the rest of the configuration is valid.
\<close>

definition update_at :: "('a \<Rightarrow> 'a) \<Rightarrow> nat \<Rightarrow> 'a option list \<Rightarrow> 'a option list" where
  "update_at f i xs = (if i < length xs then xs[i := map_option f (xs ! i)] else xs)"

definition with_interval :: "Config \<Rightarrow> nat \<Rightarrow> int \<Rightarrow> Config" where
  "with_interval c i v =
     c\<lparr>Interfaces :=
         map_option (update_at (\<lambda>x. x\<lparr>RAIntervalMilliseconds := v\<rparr>) i) (Interfaces c)\<rparr>"

definition with_lifetimes :: "Config \<Rightarrow> nat \<Rightarrow> nat \<Rightarrow> int option \<Rightarrow> int option \<Rightarrow> Config" where
  "with_lifetimes c i j vl pl =
     c\<lparr>Interfaces :=
         map_option
           (update_at
             (\<lambda>x. x\<lparr>Prefixes :=
                  map_option
                    (update_at
                      (\<lambda>p. p\<lparr>ValidLifetimeSeconds := vl, PreferredLifetimeSeconds := pl\<rparr>) j)
                    (Prefixes x)\<rparr>) i)
           (Interfaces c)\<rparr>"

subsection \<open>Example values\<close>

text \<open>
  The values of the two library functions on the strings the examples below use:
  \<open>netip.ParsePrefix\<close> maps \<open>2001:db8::/64\<close> and \<open>2001:db8::/48\<close> to the address
  \<open>2001:db8::\<close> with 64 and 48 bits, and \<open>cidrv6\<close> accepts both. No example passes
  another string to them.
\<close>

definition p64 :: netip_Prefix where
  "p64 = Prefix_of (Addr6 0x20010db8000000000000000000000000) 64"

definition p48 :: netip_Prefix where
  "p48 = Prefix_of (Addr6 0x20010db8000000000000000000000000) 48"

definition example_ParsePrefix :: "string \<Rightarrow> netip_Prefix option" where
  "example_ParsePrefix s =
     (if s = ''2001:db8::/64'' then Some p64
      else if s = ''2001:db8::/48'' then Some p48
      else None)"

definition example_isCIDRv6 :: "string \<Rightarrow> bool" where
  "example_isCIDRv6 s = (s = ''2001:db8::/64'' \<or> s = ''2001:db8::/48'')"

definition example_netlib :: netlib where
  "example_netlib = \<lparr>ParsePrefix = example_ParsePrefix, isCIDRv6 = example_isCIDRv6\<rparr>"

definition prefix_config :: "string \<Rightarrow> int option \<Rightarrow> int option \<Rightarrow> PrefixConfig" where
  "prefix_config s vl pl =
     \<lparr>Prefix = s, OnLink = False, Autonomous = False,
      ValidLifetimeSeconds = vl, PreferredLifetimeSeconds = pl\<rparr>"

definition interface_config :: "string \<Rightarrow> int \<Rightarrow> PrefixConfig option slice \<Rightarrow> InterfaceConfig" where
  "interface_config n ms ps =
     \<lparr>Name = n, RAIntervalMilliseconds = ms, CurrentHopLimit = 0, Managed = False,
      Other = False, RouterLifetimeSeconds = 0, ReachableTimeMilliseconds = 0,
      RetransmitTimeMilliseconds = 0, Prefixes = ps\<rparr>"

definition config_equal_prefixes :: Config where
  "config_equal_prefixes =
     \<lparr>Interfaces = Some [Some (interface_config ''net0'' 100
        (Some [Some (prefix_config ''2001:db8::/64'' None None),
               Some (prefix_config ''2001:db8::/64'' None None)]))]\<rparr>"

definition config_overlap :: Config where
  "config_overlap =
     \<lparr>Interfaces = Some [Some (interface_config ''net0'' 100
        (Some [Some (prefix_config ''2001:db8::/64'' None None),
               Some (prefix_config ''2001:db8::/48'' None None)]))]\<rparr>"

definition config_zero_interval :: Config where
  "config_zero_interval = \<lparr>Interfaces = Some [Some (interface_config ''net0'' 0 None)]\<rparr>"

definition config_short_interval :: Config where
  "config_short_interval = \<lparr>Interfaces = Some [Some (interface_config ''net0'' 69 None)]\<rparr>"

definition config_happy_path :: Config where
  "config_happy_path =
     \<lparr>Interfaces = Some [Some (interface_config ''net0'' 100 None),
                         Some (interface_config ''net1'' 100 None)]\<rparr>"

definition config_same_name :: Config where
  "config_same_name =
     \<lparr>Interfaces = Some [Some (interface_config ''net0'' 100 None),
                         Some (interface_config ''net0'' 5 None)]\<rparr>"

definition config_nil_element :: Config where
  "config_nil_element = \<lparr>Interfaces = Some [Some (interface_config ''net0'' 100 None), None]\<rparr>"

definition config_lifetimes :: "int option \<Rightarrow> int option \<Rightarrow> Config" where
  "config_lifetimes vl pl =
     \<lparr>Interfaces = Some [Some (interface_config ''net0'' 0
        (Some [Some (prefix_config ''2001:db8::/64'' vl pl)]))]\<rparr>"

text \<open>
  Example inputs of the parse functions. The JSON text \<open>{}\<close> decodes to the zero
  \<open>Config\<close>, whose \<open>Interfaces\<close> is the nil slice; the YAML text decodes to two
  interfaces of the same name, the second with an interval of 5 milliseconds.
\<close>

definition example_yaml :: string where
  "example_yaml =
     ''interfaces: [{name: net0, raIntervalMilliseconds: 100}, {name: net0, raIntervalMilliseconds: 5}]''"

definition example_json_Decode :: "string \<Rightarrow> string + Config" where
  "example_json_Decode r =
     (if r = ''{}'' then Inr \<lparr>Interfaces = None\<rparr> else Inl ''cannot unmarshal'')"

definition example_yaml_Decode :: "string \<Rightarrow> string + Config" where
  "example_yaml_Decode r =
     (if r = example_yaml then Inr config_same_name else Inl ''cannot unmarshal'')"

definition example_Open :: "string \<Rightarrow> string + string" where
  "example_Open path =
     (if path = ''/etc/ra.yaml'' then Inr example_yaml else Inl ''no such file or directory'')"


section \<open>Properties\<close>

subsection \<open>The uniqueness constraint\<close>

lemma unique_name_loop_iff:
  "unique_name_loop names xs \<longleftrightarrow>
     None \<notin> set xs \<and> distinct (map (Name \<circ> the) xs) \<and> names \<inter> set (map (Name \<circ> the) xs) = {}"
proof (induction xs arbitrary: names)
  case Nil
  then show ?case by simp
next
  case (Cons x xs)
  show ?case
  proof (cases x)
    case None
    then show ?thesis by simp
  next
    case (Some iface)
    then show ?thesis using Cons.IH [of "insert (Name iface) names"] by auto
  qed
qed

lemma Name_defaults [simp]: "Name (defaults_InterfaceConfig a) = Name a"
  by (simp add: defaults_InterfaceConfig_def)

lemma Interfaces_defaults_Set:
  "Interfaces (defaults_Set c) = map_option (map (map_option defaults_InterfaceConfig)) (Interfaces c)"
  by (simp add: defaults_Set_def map_slice_def)

lemma duplicate_not_unique:
  assumes "i < j" "j < length xs" "xs ! i = Some a" "xs ! j = Some b" "Name a = Name b"
  shows "\<not> non_nil_and_unique_name (map (map_option defaults_InterfaceConfig) xs)"
proof -
  let ?ys = "map (Name \<circ> the) (map (map_option defaults_InterfaceConfig) xs)"
  have len: "i < length ?ys" "j < length ?ys" "i \<noteq> j" using assms by simp_all
  have "?ys ! i = ?ys ! j" using assms by simp
  then have "\<not> distinct ?ys"
    using len nth_eq_iff_index_eq by blast
  then show ?thesis by (simp add: non_nil_and_unique_name_def unique_name_loop_iff)
qed

lemma nil_not_unique:
  assumes "None \<in> set xs"
  shows "\<not> non_nil_and_unique_name (map (map_option defaults_InterfaceConfig) xs)"
proof -
  have "None \<in> set (map (map_option defaults_InterfaceConfig) xs)"
    using assms by (force simp: image_iff)
  then show ?thesis by (simp add: non_nil_and_unique_name_def unique_name_loop_iff)
qed

subsection \<open>Where an error is reported\<close>

text \<open>
  Every error of a field carries the namespace of that field, and every error found
  below element \<open>i\<close> of a slice carries a namespace through \<open>[i]\<close>. So the errors
  reported for one field of one element are exactly those of that field's constraints.
\<close>

lemma run_tags_Namespace: "e \<in> set (run_tags ns ts) \<Longrightarrow> Namespace e = ns"
  by (induction ns ts rule: run_tags.induct) (auto split: if_splits)

lemma filter_run_tags:
  "filter (\<lambda>e. Namespace e = t) (run_tags ns ts) = (if ns = t then run_tags ns ts else [])"
  using run_tags_Namespace [of _ ns ts] by (auto simp: filter_empty_conv filter_id_conv)

lemma dive_Namespace:
  assumes "\<And>ns' x e. e \<in> set (f ns' x) \<Longrightarrow> \<exists>r. Namespace e = ns' @ r"
    and "e \<in> set (dive f ns k xs)"
  shows "\<exists>j r. k \<le> j \<and> Namespace e = ns @ Idx j # r"
  using assms(2)
proof (induction xs arbitrary: k)
  case Nil
  then show ?case by simp
next
  case (Cons y ys)
  show ?case
  proof (cases y)
    case None
    with Cons.prems have "e = FieldError (ns @ [Idx k]) ''required'' \<or> e \<in> set (dive f ns (Suc k) ys)"
      by simp
    then show ?thesis
    proof
      assume "e = FieldError (ns @ [Idx k]) ''required''"
      then have "k \<le> k \<and> Namespace e = ns @ Idx k # []" by simp
      then show ?thesis by blast
    next
      assume "e \<in> set (dive f ns (Suc k) ys)"
      from Cons.IH [OF this] show ?thesis by (auto intro: Suc_leD)
    qed
  next
    case (Some x)
    with Cons.prems have "e \<in> set (f (ns @ [Idx k]) x) \<or> e \<in> set (dive f ns (Suc k) ys)"
      by simp
    then show ?thesis
    proof
      assume "e \<in> set (f (ns @ [Idx k]) x)"
      from assms(1) [OF this] obtain r where "Namespace e = (ns @ [Idx k]) @ r" by blast
      then have "k \<le> k \<and> Namespace e = ns @ Idx k # r" by simp
      then show ?thesis by blast
    next
      assume "e \<in> set (dive f ns (Suc k) ys)"
      from Cons.IH [OF this] show ?thesis by (auto intro: Suc_leD)
    qed
  qed
qed

lemma filter_dive:
  assumes under: "\<And>ns' x e. e \<in> set (f ns' x) \<Longrightarrow> \<exists>r. Namespace e = ns' @ r"
    and "i < length xs" "xs ! i = Some x"
  shows "filter (\<lambda>e. Namespace e = ns @ Idx (k + i) # r) (dive f ns k xs) =
         filter (\<lambda>e. Namespace e = ns @ Idx (k + i) # r) (f (ns @ [Idx (k + i)]) x)"
  using assms(2,3)
proof (induction xs arbitrary: k i)
  case Nil
  then show ?case by simp
next
  case (Cons y ys)
  show ?case
  proof (cases i)
    case 0
    have "filter (\<lambda>e. Namespace e = ns @ Idx k # r) (dive f ns (Suc k) ys) = []"
    proof -
      have "Namespace e \<noteq> ns @ Idx k # r" if "e \<in> set (dive f ns (Suc k) ys)" for e
        using dive_Namespace [OF under that] by auto
      then show ?thesis by (simp add: filter_empty_conv)
    qed
    then show ?thesis using 0 Cons.prems by simp
  next
    case (Suc i')
    have tl: "filter (\<lambda>e. Namespace e = ns @ Idx (Suc k + i') # r) (dive f ns (Suc k) ys) =
         filter (\<lambda>e. Namespace e = ns @ Idx (Suc k + i') # r) (f (ns @ [Idx (Suc k + i')]) x)"
      using Cons.IH [of i' "Suc k"] Cons.prems Suc by simp
    have hd: "filter (\<lambda>e. Namespace e = ns @ Idx (Suc k + i') # r) (dive f ns k [y]) = []"
    proof (cases y)
      case None
      then show ?thesis by simp
    next
      case (Some z)
      have "Namespace e \<noteq> ns @ Idx (Suc k + i') # r" if "e \<in> set (f (ns @ [Idx k]) z)" for e
        using under [OF that] by auto
      then show ?thesis using Some by (simp add: filter_empty_conv)
    qed
    have "dive f ns k (y # ys) = dive f ns k [y] @ dive f ns (Suc k) ys"
      by (cases y) simp_all
    then show ?thesis using hd tl Suc by simp
  qed
qed

lemma validate_lifetime_Namespace:
  "e \<in> set (validate_lifetime ns p tags) \<Longrightarrow> Namespace e = ns"
  by (auto simp: validate_lifetime_def split: option.splits dest: run_tags_Namespace)

lemma filter_validate_lifetime:
  "filter (\<lambda>e. Namespace e = t) (validate_lifetime ns p tags) =
     (if ns = t then validate_lifetime ns p tags else [])"
  using validate_lifetime_Namespace [of _ ns p tags]
  by (auto simp: filter_empty_conv filter_id_conv)

lemma validate_PrefixConfig_under:
  assumes "e \<in> set (validate_PrefixConfig env ns p)"
  shows "\<exists>r. Namespace e = ns @ r"
proof -
  from assms consider
      (tags) F ts where "e \<in> set (run_tags (ns @ [Fld F]) ts)"
    | (lifetime) F q ts where "e \<in> set (validate_lifetime (ns @ [Fld F]) q ts)"
    unfolding validate_PrefixConfig_def set_append by blast
  then show ?thesis
  proof cases
    case tags
    then show ?thesis by (auto dest!: run_tags_Namespace)
  next
    case lifetime
    then show ?thesis by (auto dest!: validate_lifetime_Namespace)
  qed
qed

lemma validate_Prefixes_under:
  assumes "e \<in> set (validate_Prefixes env ns ps)"
  shows "\<exists>r. Namespace e = ns @ r"
proof (cases "non_nil_and_non_overlapping_prefix env (elems ps)")
  case True
  then have "e \<in> set (dive (validate_PrefixConfig env) ns 0 (elems ps))"
    using assms by (simp add: validate_Prefixes_def)
  note mem = this
  have "\<exists>j r. 0 \<le> j \<and> Namespace e = ns @ Idx j # r"
  proof (rule dive_Namespace [where f = "validate_PrefixConfig env"])
    show "e \<in> set (dive (validate_PrefixConfig env) ns 0 (elems ps))" by (rule mem)
  qed (rule validate_PrefixConfig_under)
  then show ?thesis by blast
next
  case False
  then show ?thesis using assms by (simp add: validate_Prefixes_def)
qed

lemma validate_InterfaceConfig_under:
  assumes "e \<in> set (validate_InterfaceConfig env ns x)"
  shows "\<exists>r. Namespace e = ns @ r"
proof -
  from assms consider
      (tags) F ts where "e \<in> set (run_tags (ns @ [Fld F]) ts)"
    | (prefixes) "e \<in> set (validate_Prefixes env (ns @ [Fld ''Prefixes'']) (Prefixes x))"
    unfolding validate_InterfaceConfig_def set_append by blast
  then show ?thesis
  proof cases
    case tags
    then show ?thesis by (auto dest!: run_tags_Namespace)
  next
    case prefixes
    from validate_Prefixes_under [OF this] obtain r
      where "Namespace e = (ns @ [Fld ''Prefixes'']) @ r" by blast
    then show ?thesis by simp
  qed
qed

lemma filter_validate_Struct:
  assumes "Interfaces c = Some xs" "i < length xs" "xs ! i = Some x"
  shows "filter (\<lambda>e. Namespace e = ns_iface i @ r) (validate_Struct env c) =
     (if non_nil_and_unique_name xs
      then filter (\<lambda>e. Namespace e = ns_iface i @ r) (validate_InterfaceConfig env (ns_iface i) x)
      else [])"
proof -
  have "filter (\<lambda>e. Namespace e = ns_Interfaces @ Idx (0 + i) # r)
          (dive (validate_InterfaceConfig env) ns_Interfaces 0 xs) =
        filter (\<lambda>e. Namespace e = ns_Interfaces @ Idx (0 + i) # r)
          (validate_InterfaceConfig env (ns_Interfaces @ [Idx (0 + i)]) x)"
    by (rule filter_dive [OF validate_InterfaceConfig_under assms(2,3)])
  then show ?thesis
    using assms(1) by (simp add: validate_Struct_def ns_iface_def ns_Interfaces_def)
qed

lemma filter_validate_Prefixes:
  assumes "ps = Some ys" "j < length ys" "ys ! j = Some p"
  shows "filter (\<lambda>e. Namespace e = ns @ Idx j # r) (validate_Prefixes env ns ps) =
     (if non_nil_and_non_overlapping_prefix env ys
      then filter (\<lambda>e. Namespace e = ns @ Idx j # r) (validate_PrefixConfig env (ns @ [Idx j]) p)
      else [])"
proof -
  have "filter (\<lambda>e. Namespace e = ns @ Idx (0 + j) # r)
          (dive (validate_PrefixConfig env) ns 0 ys) =
        filter (\<lambda>e. Namespace e = ns @ Idx (0 + j) # r)
          (validate_PrefixConfig env (ns @ [Idx (0 + j)]) p)"
    by (rule filter_dive [OF validate_PrefixConfig_under assms(2,3)])
  then show ?thesis
    using assms(1) by (simp add: validate_Prefixes_def elems_def)
qed

lemma filter_Prefixes_other:
  assumes "F \<noteq> ''Prefixes''"
  shows "filter (\<lambda>e. Namespace e = ns @ [Fld F]) (validate_Prefixes env (ns @ [Fld ''Prefixes'']) ps) = []"
proof -
  have "Namespace e \<noteq> ns @ [Fld F]"
    if "e \<in> set (validate_Prefixes env (ns @ [Fld ''Prefixes'']) ps)" for e
    using validate_Prefixes_under [OF that] assms by auto
  then show ?thesis by (simp add: filter_empty_conv)
qed

lemma filter_RAInterval:
  "filter (\<lambda>e. Namespace e = ns @ [Fld ''RAIntervalMilliseconds''])
     (validate_InterfaceConfig env ns x) =
   run_tags (ns @ [Fld ''RAIntervalMilliseconds''])
     [(''required'', RAIntervalMilliseconds x \<noteq> 0),
      (''gte'', 70 \<le> RAIntervalMilliseconds x),
      (''lte'', RAIntervalMilliseconds x \<le> 1800000)]"
  unfolding validate_InterfaceConfig_def filter_append filter_run_tags
  by (simp add: filter_Prefixes_other)

lemma filter_Prefixes_field:
  "filter (\<lambda>e. Namespace e = ns @ Fld ''Prefixes'' # r) (validate_InterfaceConfig env ns x) =
   filter (\<lambda>e. Namespace e = ns @ Fld ''Prefixes'' # r)
     (validate_Prefixes env (ns @ [Fld ''Prefixes'']) (Prefixes x))"
  unfolding validate_InterfaceConfig_def filter_append filter_run_tags
  by simp

lemma filter_ValidLifetime:
  "filter (\<lambda>e. Namespace e = ns @ [Fld ''ValidLifetimeSeconds'']) (validate_PrefixConfig env ns p) =
   validate_lifetime (ns @ [Fld ''ValidLifetimeSeconds'']) (ValidLifetimeSeconds p)
         [(''gte'', \<lambda>v. 0 \<le> v), (''lte'', \<lambda>v. v \<le> 4294967295)]"
  unfolding validate_PrefixConfig_def filter_append filter_run_tags filter_validate_lifetime
  by simp

lemma filter_PreferredLifetime:
  "filter (\<lambda>e. Namespace e = ns @ [Fld ''PreferredLifetimeSeconds'']) (validate_PrefixConfig env ns p) =
   validate_lifetime (ns @ [Fld ''PreferredLifetimeSeconds'']) (PreferredLifetimeSeconds p)
         [(''gte'', \<lambda>v. 0 \<le> v), (''ltefield'', ltefield (ValidLifetimeSeconds p))]"
  unfolding validate_PrefixConfig_def filter_append filter_run_tags filter_validate_lifetime
  by simp

subsection \<open>Defaulting, field by field\<close>

lemma iface_atD:
  assumes "iface_at c i = Some x"
  obtains xs where "Interfaces c = Some xs" "i < length xs" "xs ! i = Some x"
  using assms by (auto simp: iface_at_def elems_def split: if_splits option.splits)

lemma prefix_atD:
  assumes "prefix_at x j = Some p"
  obtains ps where "Prefixes x = Some ps" "j < length ps" "ps ! j = Some p"
  using assms by (auto simp: prefix_at_def elems_def split: if_splits option.splits)

lemma iface_at_defaults:
  "iface_at (defaults_Set c) i = map_option defaults_InterfaceConfig (iface_at c i)"
  by (cases "Interfaces c") (simp_all add: iface_at_def elems_def Interfaces_defaults_Set)

lemma prefix_at_defaults:
  "prefix_at (defaults_InterfaceConfig x) j = map_option defaults_PrefixConfig (prefix_at x j)"
  by (cases "Prefixes x")
     (simp_all add: prefix_at_def elems_def defaults_InterfaceConfig_def map_slice_def)

lemma RAInterval_defaults:
  "RAIntervalMilliseconds (defaults_InterfaceConfig x) =
     (if RAIntervalMilliseconds x = 0 then 600000 else RAIntervalMilliseconds x)"
  by (simp add: defaults_InterfaceConfig_def default_int_def)

lemma ValidLifetime_defaults:
  "ValidLifetimeSeconds (defaults_PrefixConfig p) = Some (effective_valid p)"
  by (simp add: defaults_PrefixConfig_def default_ptr_def effective_valid_def split: option.splits)

lemma PreferredLifetime_defaults:
  "PreferredLifetimeSeconds (defaults_PrefixConfig p) = Some (effective_preferred p)"
  by (simp add: defaults_PrefixConfig_def default_ptr_def effective_preferred_def
      split: option.splits)

lemma fst_defaultAndValidate: "fst (defaultAndValidate env c) = defaults_Set c"
  by (simp add: defaultAndValidate_def Let_def)

lemma errors_at_defaultAndValidate:
  "errors_at ns (snd (defaultAndValidate env c)) =
     filter (\<lambda>e. Namespace e = ns) (validate_Struct env (defaults_Set c))"
  by (simp add: defaultAndValidate_def Let_def errors_at_def)

lemma rejected_iff:
  "snd (defaultAndValidate env c) \<noteq> None \<longleftrightarrow> validate_Struct env (defaults_Set c) \<noteq> []"
  by (simp add: defaultAndValidate_def Let_def del: not_None_eq)

lemma errors_at_rejected:
  "errors_at ns (snd (defaultAndValidate env c)) \<noteq> [] \<Longrightarrow> snd (defaultAndValidate env c) \<noteq> None"
  by (cases "snd (defaultAndValidate env c)") (simp_all add: errors_at_def)

text \<open>The errors that defaultAndValidate reports below interface i.\<close>

lemma errors_at_iface:
  assumes "iface_at c i = Some x"
  shows "errors_at (ns_iface i @ r) (snd (defaultAndValidate env c)) =
     (if non_nil_and_unique_name (elems (Interfaces (defaults_Set c)))
      then filter (\<lambda>e. Namespace e = ns_iface i @ r)
             (validate_InterfaceConfig env (ns_iface i) (defaults_InterfaceConfig x))
      else [])"
proof -
  have "iface_at (defaults_Set c) i = Some (defaults_InterfaceConfig x)"
    using assms by (simp add: iface_at_defaults)
  then obtain ys where ys: "Interfaces (defaults_Set c) = Some ys" "i < length ys"
      "ys ! i = Some (defaults_InterfaceConfig x)"
    by (rule iface_atD)
  show ?thesis
    unfolding errors_at_defaultAndValidate filter_validate_Struct [OF ys]
    using ys(1) by (simp add: elems_def)
qed

lemma not_unique_rejected:
  assumes "iface_at c i = Some x"
    and "\<not> non_nil_and_unique_name (elems (Interfaces (defaults_Set c)))"
  shows "snd (defaultAndValidate env c) \<noteq> None"
proof -
  obtain xs where "Interfaces c = Some xs" using assms(1) by (rule iface_atD)
  then have "validate_Struct env (defaults_Set c) \<noteq> []"
    using assms(2) by (simp add: validate_Struct_def Interfaces_defaults_Set elems_def)
  then show ?thesis using rejected_iff by blast
qed

text \<open>The errors that defaultAndValidate reports below prefix j of interface i.\<close>

lemma errors_at_prefix:
  assumes "iface_at c i = Some x" "prefix_at x j = Some p"
  shows "errors_at (ns_prefix i j @ r) (snd (defaultAndValidate env c)) =
     (if non_nil_and_unique_name (elems (Interfaces (defaults_Set c)))
         \<and> non_nil_and_non_overlapping_prefix env (elems (Prefixes (defaults_InterfaceConfig x)))
      then filter (\<lambda>e. Namespace e = ns_prefix i j @ r)
             (validate_PrefixConfig env (ns_prefix i j) (defaults_PrefixConfig p))
      else [])"
proof -
  have "prefix_at (defaults_InterfaceConfig x) j = Some (defaults_PrefixConfig p)"
    using assms(2) by (simp add: prefix_at_defaults)
  then obtain ps where ps: "Prefixes (defaults_InterfaceConfig x) = Some ps" "j < length ps"
      "ps ! j = Some (defaults_PrefixConfig p)"
    by (rule prefix_atD)
  have ns: "ns_prefix i j @ r = ns_iface i @ Fld ''Prefixes'' # Idx j # r"
    by (simp add: ns_prefix_def)
  have ns': "ns_prefix i j = (ns_iface i @ [Fld ''Prefixes'']) @ [Idx j]"
    by (simp add: ns_prefix_def)
  have "filter (\<lambda>e. Namespace e = ns_iface i @ Fld ''Prefixes'' # Idx j # r)
          (validate_InterfaceConfig env (ns_iface i) (defaults_InterfaceConfig x)) =
        (if non_nil_and_non_overlapping_prefix env ps
         then filter (\<lambda>e. Namespace e = ns_iface i @ Fld ''Prefixes'' # Idx j # r)
                (validate_PrefixConfig env (ns_prefix i j) (defaults_PrefixConfig p))
         else [])"
    unfolding filter_Prefixes_field ns'
    using filter_validate_Prefixes [OF ps, of "ns_iface i @ [Fld ''Prefixes'']" r env]
    by simp
  then show ?thesis
    unfolding ns errors_at_iface [OF assms(1)] using ps(1) by (simp add: elems_def)
qed

lemma overlap_rejected:
  assumes "iface_at c i = Some x"
    and "\<not> non_nil_and_non_overlapping_prefix env (elems (Prefixes (defaults_InterfaceConfig x)))"
  shows "snd (defaultAndValidate env c) \<noteq> None"
proof (cases "non_nil_and_unique_name (elems (Interfaces (defaults_Set c)))")
  case True
  have "errors_at (ns_iface i @ [Fld ''Prefixes'']) (snd (defaultAndValidate env c)) =
        [FieldError (ns_iface i @ [Fld ''Prefixes'']) ''non_nil_and_non_overlapping_prefix'']"
    unfolding errors_at_iface [OF assms(1)] filter_Prefixes_field
    using True assms(2) by (simp add: validate_Prefixes_def)
  then show ?thesis using errors_at_rejected [of "ns_iface i @ [Fld ''Prefixes'']" env c] by simp
next
  case False
  then show ?thesis using not_unique_rejected [OF assms(1)] by simp
qed

subsection \<open>The overlap constraint\<close>

lemma Overlaps_refl: "IsValid p \<Longrightarrow> Overlaps p p"
  by (simp add: Overlaps_def)

lemma no_overlap_iff:
  "no_overlap ps \<longleftrightarrow> (\<forall>a\<in>set ps. \<forall>b\<in>set ps. a \<noteq> b \<longrightarrow> \<not> Overlaps a b)"
  by (auto simp: no_overlap_def list_all_iff)

lemma collect_prefixes_set:
  "collect_prefixes env acc xs = Some ps \<Longrightarrow>
     set ps = set acc \<union> {a. \<exists>x. Some x \<in> set xs \<and> ParsePrefix env (Prefix x) = Some a}"
proof (induction xs arbitrary: acc)
  case Nil
  then show ?case by simp
next
  case (Cons y ys)
  show ?case
  proof (cases y)
    case None
    then show ?thesis using Cons.prems by simp
  next
    case (Some x)
    show ?thesis
    proof (cases "ParsePrefix env (Prefix x)")
      case None
      with Some Cons.prems have "collect_prefixes env acc ys = Some ps" by simp
      from Cons.IH [OF this] show ?thesis using Some None by auto
    next
      case (Some a)
      with \<open>y = Some x\<close> Cons.prems have "collect_prefixes env (acc @ [a]) ys = Some ps" by simp
      from Cons.IH [OF this] show ?thesis using Some \<open>y = Some x\<close> by auto
    qed
  qed
qed

lemma Prefix_defaults: "Prefix (defaults_PrefixConfig p) = Prefix p"
  by (simp add: defaults_PrefixConfig_def)

lemma distinct_overlap_rejected:
  assumes "iface_at c i = Some x" "prefix_at x j = Some p" "prefix_at x k = Some q"
    and "ParsePrefix env (Prefix p) = Some a" "ParsePrefix env (Prefix q) = Some b"
    and "a \<noteq> b" "Overlaps a b"
  shows "snd (defaultAndValidate env c) \<noteq> None"
proof -
  let ?ys = "elems (Prefixes (defaults_InterfaceConfig x))"
  have mem: "Some (defaults_PrefixConfig r) \<in> set ?ys" if "prefix_at x n = Some r" for n r
  proof -
    have "prefix_at (defaults_InterfaceConfig x) n = Some (defaults_PrefixConfig r)"
      using that by (simp add: prefix_at_defaults)
    then show ?thesis
      by (metis nth_mem option.distinct(1) prefix_at_def)
  qed
  have "\<not> non_nil_and_non_overlapping_prefix env ?ys"
  proof (cases "collect_prefixes env [] ?ys")
    case None
    then show ?thesis by (simp add: non_nil_and_non_overlapping_prefix_def)
  next
    case (Some ps)
    from collect_prefixes_set [OF this] mem [OF assms(2)] mem [OF assms(3)] assms(4,5)
    have "a \<in> set ps" "b \<in> set ps" by (auto simp: Prefix_defaults)
    then have "\<not> no_overlap ps" using assms(6,7) by (auto simp: no_overlap_iff)
    then show ?thesis using Some by (simp add: non_nil_and_non_overlapping_prefix_def)
  qed
  then show ?thesis by (rule overlap_rejected [OF assms(1)])
qed

text \<open>
  Two entries whose strings parse to the same prefix never fail the comparison
  \<open>p0 != p1 && p0.Overlaps(p1)\<close>, although a valid prefix overlaps itself.
\<close>

lemma equal_prefixes_pass_overlap_check:
  assumes "ParsePrefix env (Prefix p) = Some a" and "Prefix q = Prefix p"
  shows "non_nil_and_non_overlapping_prefix env [Some p, Some q]"
  using assms by (simp add: non_nil_and_non_overlapping_prefix_def no_overlap_def)

subsection \<open>Evaluation of the examples\<close>

lemmas eval_defs = defaultAndValidate_def defaults_Set_def map_slice_def
  defaults_InterfaceConfig_def defaults_PrefixConfig_def default_int_def default_ptr_def
  validate_Struct_def non_nil_and_unique_name_def validate_InterfaceConfig_def
  validate_Prefixes_def elems_def non_nil_and_non_overlapping_prefix_def no_overlap_def
  validate_PrefixConfig_def validate_lifetime_def ltefield_def
  example_netlib_def example_ParsePrefix_def example_isCIDRv6_def
  prefix_config_def interface_config_def

lemma example_prefix_overlaps_itself: "IsValid p64 \<and> Overlaps p64 p64"
  by (simp add: Overlaps_def IsValid_def p64_def)

lemma example_overlap_rejected:
  "snd (defaultAndValidate example_netlib config_overlap) =
     Some [FieldError (ns_iface 0 @ [Fld ''Prefixes'']) ''non_nil_and_non_overlapping_prefix'']"
  by code_simp

lemma example_happy_path_accepted:
  "snd (defaultAndValidate example_netlib config_happy_path) = None"
  by (simp add: eval_defs config_happy_path_def)


subsection \<open>What defaultAndValidate accepts\<close>

lemma run_tags_empty_iff: "run_tags ns ts = [] \<longleftrightarrow> list_all snd ts"
  by (induction ns ts rule: run_tags.induct) auto

lemma dive_empty_iff:
  assumes "\<And>ns x. f ns x = [] \<longleftrightarrow> P x"
  shows "dive f ns k xs = [] \<longleftrightarrow> all_present P xs"
proof (induction xs arbitrary: k)
  case Nil
  then show ?case by (simp add: all_present_def)
next
  case (Cons y ys)
  then show ?case using assms by (cases y) (simp_all add: all_present_def)
qed

lemma all_present_map:
  "all_present P (map (map_option f) xs) = all_present (P \<circ> f) xs"
  by (induction xs) (auto simp: all_present_def split: option.splits)

lemma validate_PrefixConfig_empty_iff:
  "validate_PrefixConfig env ns (defaults_PrefixConfig p) = [] \<longleftrightarrow> prefix_valid env p"
  by (auto simp: validate_PrefixConfig_def validate_lifetime_def ltefield_def
      ValidLifetime_defaults PreferredLifetime_defaults Prefix_defaults prefix_valid_def)

lemma collect_prefixes_defaults:
  "collect_prefixes env acc (map (map_option defaults_PrefixConfig) xs) =
   collect_prefixes env acc xs"
proof (induction xs arbitrary: acc)
  case Nil
  then show ?case by simp
next
  case (Cons y ys)
  then show ?case by (cases y) (simp_all add: Prefix_defaults split: option.splits)
qed

lemma non_overlapping_defaults:
  "non_nil_and_non_overlapping_prefix env (map (map_option defaults_PrefixConfig) xs) =
   non_nil_and_non_overlapping_prefix env xs"
  by (simp add: non_nil_and_non_overlapping_prefix_def collect_prefixes_defaults)

lemma elems_Prefixes_defaults:
  "elems (Prefixes (defaults_InterfaceConfig x)) =
     map (map_option defaults_PrefixConfig) (elems (Prefixes x))"
  by (cases "Prefixes x") (simp_all add: defaults_InterfaceConfig_def map_slice_def elems_def)

lemma validate_Prefixes_empty_iff:
  "validate_Prefixes env ns (Prefixes (defaults_InterfaceConfig x)) = [] \<longleftrightarrow>
     non_nil_and_non_overlapping_prefix env (elems (Prefixes x))
     \<and> all_present (prefix_valid env) (elems (Prefixes x))"
proof -
  have "dive (validate_PrefixConfig env) ns 0 (map (map_option defaults_PrefixConfig) ys) = []
      \<longleftrightarrow> all_present (prefix_valid env) ys" for ys
  proof -
    have "dive (\<lambda>ns p. validate_PrefixConfig env ns (defaults_PrefixConfig p)) ns k ys = []
        \<longleftrightarrow> all_present (prefix_valid env) ys" for k
      by (rule dive_empty_iff) (rule validate_PrefixConfig_empty_iff)
    moreover have "dive (validate_PrefixConfig env) ns k (map (map_option defaults_PrefixConfig) ys)
        = dive (\<lambda>ns p. validate_PrefixConfig env ns (defaults_PrefixConfig p)) ns k ys" for k
    proof (induction ys arbitrary: k)
      case Nil
      then show ?case by simp
    next
      case (Cons z zs)
      then show ?case by (cases z) simp_all
    qed
    ultimately show ?thesis by simp
  qed
  then show ?thesis
    by (simp add: validate_Prefixes_def elems_Prefixes_defaults non_overlapping_defaults)
qed

lemma validate_InterfaceConfig_empty_iff:
  "validate_InterfaceConfig env ns (defaults_InterfaceConfig x) = [] \<longleftrightarrow> interface_valid env x"
proof -
  have fields: "Name (defaults_InterfaceConfig x) = Name x"
    "CurrentHopLimit (defaults_InterfaceConfig x) = CurrentHopLimit x"
    "RouterLifetimeSeconds (defaults_InterfaceConfig x) = RouterLifetimeSeconds x"
    "ReachableTimeMilliseconds (defaults_InterfaceConfig x) = ReachableTimeMilliseconds x"
    "RetransmitTimeMilliseconds (defaults_InterfaceConfig x) = RetransmitTimeMilliseconds x"
    by (simp_all add: defaults_InterfaceConfig_def default_int_def)
  show ?thesis
    unfolding validate_InterfaceConfig_def append_is_Nil_conv run_tags_empty_iff
      validate_Prefixes_empty_iff interface_valid_def fields RAInterval_defaults
    by auto
qed

lemma dive_defaults:
  "dive f ns k (map (map_option g) ys) = dive (\<lambda>ns y. f ns (g y)) ns k ys"
proof (induction ys arbitrary: k)
  case Nil
  then show ?case by simp
next
  case (Cons z zs)
  then show ?case by (cases z) simp_all
qed

lemma unique_name_defaults:
  "non_nil_and_unique_name (map (map_option defaults_InterfaceConfig) xs) =
   non_nil_and_unique_name xs"
proof -
  have "map (Name \<circ> the) (map (map_option defaults_InterfaceConfig) xs) = map (Name \<circ> the) xs"
    if "None \<notin> set xs"
    using that
  proof (induction xs)
    case Nil
    then show ?case by simp
  next
    case (Cons y ys)
    then show ?case by (cases y) simp_all
  qed
  moreover have "None \<in> set (map (map_option defaults_InterfaceConfig) xs) \<longleftrightarrow> None \<in> set xs"
    by (induction xs) auto
  ultimately show ?thesis
    unfolding non_nil_and_unique_name_def unique_name_loop_iff by metis
qed

lemma accepted_None_iff:
  "snd (defaultAndValidate env c) = None \<longleftrightarrow> validate_Struct env (defaults_Set c) = []"
  by (simp add: defaultAndValidate_def Let_def)

text \<open>
  defaultAndValidate returns a nil error exactly for the configurations that satisfy
  the invariants above.
\<close>

theorem accepted_iff:
  "snd (defaultAndValidate env c) = None \<longleftrightarrow> config_valid env c"
proof (cases "Interfaces c")
  case None
  then show ?thesis
    by (simp add: accepted_None_iff validate_Struct_def Interfaces_defaults_Set config_valid_def)
next
  case (Some xs)
  have "dive (validate_InterfaceConfig env) ns 0 (map (map_option defaults_InterfaceConfig) xs) = []
      \<longleftrightarrow> all_present (interface_valid env) xs" for ns
    unfolding dive_defaults
    by (rule dive_empty_iff) (rule validate_InterfaceConfig_empty_iff)
  then show ?thesis
    using Some
    by (auto simp: accepted_None_iff validate_Struct_def Interfaces_defaults_Set config_valid_def
        unique_name_defaults Let_def)
qed

subsection \<open>Replacing one field\<close>

text \<open>
  A configuration is valid exactly when the field in question is in range and the
  configuration with that field replaced by its default is valid.
\<close>

lemma all_present_iff:
  "all_present P xs \<longleftrightarrow> (\<forall>j<length xs. \<exists>y. xs ! j = Some y \<and> P y)"
  by (auto simp: all_present_def list_all_length split: option.splits)

lemma all_present_update_at:
  assumes "i < length xs" "xs ! i = Some x" "P x \<longleftrightarrow> Q \<and> P (f x)"
  shows "all_present P xs \<longleftrightarrow> Q \<and> all_present P (update_at f i xs)"
proof -
  have upd: "update_at f i xs ! j = (if j = i then Some (f x) else xs ! j)" if "j < length xs" for j
    using assms(1,2) that by (simp add: update_at_def nth_list_update)
  have len: "length (update_at f i xs) = length xs"
    by (simp add: update_at_def)
  show ?thesis
  proof
    assume a: "all_present P xs"
    then have "P x" using assms(1,2) by (auto simp: all_present_iff)
    then have "Q" "P (f x)" using assms(3) by auto
    moreover have "\<exists>y. update_at f i xs ! j = Some y \<and> P y" if "j < length xs" for j
      using a that upd [OF that] \<open>P (f x)\<close> by (auto simp: all_present_iff)
    ultimately show "Q \<and> all_present P (update_at f i xs)"
      by (simp add: all_present_iff len)
  next
    assume b: "Q \<and> all_present P (update_at f i xs)"
    have "\<exists>y. xs ! j = Some y \<and> P y" if "j < length xs" for j
    proof (cases "j = i")
      case True
      from b that have "\<exists>y. update_at f i xs ! i = Some y \<and> P y"
        using assms(1) by (auto simp: all_present_iff len)
      then have "P (f x)" using upd [OF assms(1)] by simp
      then show ?thesis using True assms(2,3) b by simp
    next
      case False
      from b that have "\<exists>y. update_at f i xs ! j = Some y \<and> P y"
        by (auto simp: all_present_iff len)
      then show ?thesis using upd [OF that] False by simp
    qed
    then show "all_present P xs" by (simp add: all_present_iff)
  qed
qed

lemma map_update_at:
  assumes "\<And>x. g (f x) = g x"
  shows "map (map_option g) (update_at f i xs) = map (map_option g) xs"
proof (cases "i < length xs")
  case True
  have "map_option g (map_option f (xs ! i)) = map_option g (xs ! i)"
    using assms by (cases "xs ! i") simp_all
  then show ?thesis
    using True by (simp add: update_at_def map_update list_update_same_conv)
next
  case False
  then show ?thesis by (simp add: update_at_def)
qed

lemma unique_name_loop_cong:
  "map (map_option Name) xs = map (map_option Name) ys \<Longrightarrow>
     unique_name_loop names xs = unique_name_loop names ys"
proof (induction xs arbitrary: ys names)
  case Nil
  then show ?case by simp
next
  case (Cons x xs)
  then obtain y ys' where ys: "ys = y # ys'" by (cases ys) auto
  with Cons.prems have h: "map_option Name x = map_option Name y"
    and t: "map (map_option Name) xs = map (map_option Name) ys'" by simp_all
  show ?case
  proof (cases x)
    case None
    then show ?thesis using h ys by (cases y) simp_all
  next
    case (Some a)
    then obtain b where "y = Some b" "Name a = Name b" using h by (cases y) auto
    then show ?thesis using Some ys Cons.IH [OF t] by simp
  qed
qed

lemma collect_prefixes_cong:
  "map (map_option Prefix) xs = map (map_option Prefix) ys \<Longrightarrow>
     collect_prefixes env acc xs = collect_prefixes env acc ys"
proof (induction xs arbitrary: ys acc)
  case Nil
  then show ?case by simp
next
  case (Cons x xs)
  then obtain y ys' where ys: "ys = y # ys'" by (cases ys) auto
  with Cons.prems have h: "map_option Prefix x = map_option Prefix y"
    and t: "map (map_option Prefix) xs = map (map_option Prefix) ys'" by simp_all
  show ?case
  proof (cases x)
    case None
    then show ?thesis using h ys by (cases y) simp_all
  next
    case (Some a)
    then obtain b where "y = Some b" "Prefix a = Prefix b" using h by (cases y) auto
    then show ?thesis using Some ys Cons.IH [OF t] by (simp split: option.splits)
  qed
qed

lemma unique_name_update_at:
  assumes "\<And>x. Name (f x) = Name x"
  shows "non_nil_and_unique_name (update_at f i xs) = non_nil_and_unique_name xs"
  unfolding non_nil_and_unique_name_def
  by (rule unique_name_loop_cong) (rule map_update_at [where g = Name and f = f], rule assms)

lemma non_overlapping_update_at:
  assumes "\<And>p. Prefix (f p) = Prefix p"
  shows "non_nil_and_non_overlapping_prefix env (update_at f j ps) =
         non_nil_and_non_overlapping_prefix env ps"
proof -
  have "collect_prefixes env [] (update_at f j ps) = collect_prefixes env [] ps"
    by (rule collect_prefixes_cong) (rule map_update_at [where g = Prefix and f = f], rule assms)
  then show ?thesis by (simp add: non_nil_and_non_overlapping_prefix_def)
qed

lemma interface_valid_interval:
  "interface_valid env x \<longleftrightarrow>
     (RAIntervalMilliseconds x = 0
        \<or> (70 \<le> RAIntervalMilliseconds x \<and> RAIntervalMilliseconds x \<le> 1800000))
     \<and> interface_valid env (x\<lparr>RAIntervalMilliseconds := 600000\<rparr>)"
  by (auto simp: interface_valid_def)

lemma config_valid_interval:
  assumes "iface_at c i = Some x"
  shows "config_valid env c \<longleftrightarrow>
     (RAIntervalMilliseconds x = 0
        \<or> (70 \<le> RAIntervalMilliseconds x \<and> RAIntervalMilliseconds x \<le> 1800000))
     \<and> config_valid env (with_interval c i 600000)"
proof -
  from assms obtain xs where xs: "Interfaces c = Some xs" "i < length xs" "xs ! i = Some x"
    by (rule iface_atD)
  let ?f = "\<lambda>x. x\<lparr>RAIntervalMilliseconds := 600000\<rparr>"
  have u: "non_nil_and_unique_name (update_at ?f i xs) = non_nil_and_unique_name xs"
    by (rule unique_name_update_at) simp
  have a: "all_present (interface_valid env) xs \<longleftrightarrow>
     (RAIntervalMilliseconds x = 0
        \<or> (70 \<le> RAIntervalMilliseconds x \<and> RAIntervalMilliseconds x \<le> 1800000))
     \<and> all_present (interface_valid env) (update_at ?f i xs)"
    by (rule all_present_update_at [OF xs(2,3)]) (rule interface_valid_interval)
  show ?thesis
    using xs(1) u a by (auto simp: config_valid_def with_interval_def)
qed

lemma prefix_valid_lifetimes:
  "prefix_valid env p \<longleftrightarrow>
     (0 \<le> effective_preferred p \<and> effective_preferred p \<le> effective_valid p
        \<and> effective_valid p \<le> 4294967295)
     \<and> prefix_valid env (p\<lparr>ValidLifetimeSeconds := None, PreferredLifetimeSeconds := None\<rparr>)"
  by (auto simp: prefix_valid_def effective_valid_def effective_preferred_def)

lemma interface_valid_lifetimes:
  assumes "prefix_at x j = Some p"
  shows "interface_valid env x \<longleftrightarrow>
     (0 \<le> effective_preferred p \<and> effective_preferred p \<le> effective_valid p
        \<and> effective_valid p \<le> 4294967295)
     \<and> interface_valid env (x\<lparr>Prefixes := map_option
          (update_at (\<lambda>p. p\<lparr>ValidLifetimeSeconds := None, PreferredLifetimeSeconds := None\<rparr>) j)
          (Prefixes x)\<rparr>)"
proof -
  from assms obtain ps where ps: "Prefixes x = Some ps" "j < length ps" "ps ! j = Some p"
    by (rule prefix_atD)
  let ?g = "\<lambda>p. p\<lparr>ValidLifetimeSeconds := None, PreferredLifetimeSeconds := None\<rparr>"
  have o: "non_nil_and_non_overlapping_prefix env (update_at ?g j ps) =
      non_nil_and_non_overlapping_prefix env ps"
    by (rule non_overlapping_update_at) simp
  have a: "all_present (prefix_valid env) ps \<longleftrightarrow>
     (0 \<le> effective_preferred p \<and> effective_preferred p \<le> effective_valid p
        \<and> effective_valid p \<le> 4294967295)
     \<and> all_present (prefix_valid env) (update_at ?g j ps)"
    by (rule all_present_update_at [OF ps(2,3)]) (rule prefix_valid_lifetimes)
  show ?thesis
    using ps(1) o a by (auto simp: interface_valid_def elems_def)
qed

lemma config_valid_lifetimes:
  assumes "iface_at c i = Some x" "prefix_at x j = Some p"
  shows "config_valid env c \<longleftrightarrow>
     (0 \<le> effective_preferred p \<and> effective_preferred p \<le> effective_valid p
        \<and> effective_valid p \<le> 4294967295)
     \<and> config_valid env (with_lifetimes c i j None None)"
proof -
  from assms(1) obtain xs where xs: "Interfaces c = Some xs" "i < length xs" "xs ! i = Some x"
    by (rule iface_atD)
  let ?g = "\<lambda>p. p\<lparr>ValidLifetimeSeconds := None, PreferredLifetimeSeconds := None\<rparr>"
  let ?f = "\<lambda>x. x\<lparr>Prefixes := map_option (update_at ?g j) (Prefixes x)\<rparr>"
  have u: "non_nil_and_unique_name (update_at ?f i xs) = non_nil_and_unique_name xs"
    by (rule unique_name_update_at) simp
  have a: "all_present (interface_valid env) xs \<longleftrightarrow>
     (0 \<le> effective_preferred p \<and> effective_preferred p \<le> effective_valid p
        \<and> effective_valid p \<le> 4294967295)
     \<and> all_present (interface_valid env) (update_at ?f i xs)"
    by (rule all_present_update_at [OF xs(2,3)]) (rule interface_valid_lifetimes [OF assms(2)])
  show ?thesis
    using xs(1) u a by (auto simp: config_valid_def with_lifetimes_def)
qed

lemmas valid_defs = config_valid_def all_present_def interface_valid_def prefix_valid_def
  with_interval_def with_lifetimes_def update_at_def effective_valid_def
  effective_preferred_def non_nil_and_unique_name_def non_nil_and_non_overlapping_prefix_def
  no_overlap_def elems_def example_netlib_def example_ParsePrefix_def example_isCIDRv6_def
  prefix_config_def interface_config_def

lemma config_valid_reaches_prefix:
  assumes "iface_at c i = Some x" "prefix_at x j = Some p"
    and "config_valid env (with_lifetimes c i j None None)"
  shows "non_nil_and_unique_name (elems (Interfaces (defaults_Set c)))
       \<and> non_nil_and_non_overlapping_prefix env (elems (Prefixes (defaults_InterfaceConfig x)))"
proof -
  from assms(1) obtain xs where xs: "Interfaces c = Some xs" "i < length xs" "xs ! i = Some x"
    by (rule iface_atD)
  from assms(2) obtain ps where ps: "Prefixes x = Some ps" "j < length ps" "ps ! j = Some p"
    by (rule prefix_atD)
  let ?g = "\<lambda>p. p\<lparr>ValidLifetimeSeconds := None, PreferredLifetimeSeconds := None\<rparr>"
  let ?f = "\<lambda>x. x\<lparr>Prefixes := map_option (update_at ?g j) (Prefixes x)\<rparr>"
  from assms(3) xs(1) have v: "non_nil_and_unique_name (update_at ?f i xs)"
      "all_present (interface_valid env) (update_at ?f i xs)"
    by (simp_all add: config_valid_def with_lifetimes_def)
  have "non_nil_and_unique_name (update_at ?f i xs) = non_nil_and_unique_name xs"
    by (rule unique_name_update_at) simp
  with v(1) have u: "non_nil_and_unique_name (elems (Interfaces (defaults_Set c)))"
    using xs(1) by (simp add: Interfaces_defaults_Set elems_def unique_name_defaults)
  have "update_at ?f i xs ! i = Some (?f x)"
    using xs(2,3) by (simp add: update_at_def)
  moreover have "i < length (update_at ?f i xs)"
    using xs(2) by (simp add: update_at_def)
  ultimately have "interface_valid env (?f x)"
    using v(2) by (auto simp: all_present_iff)
  then have "non_nil_and_non_overlapping_prefix env (update_at ?g j ps)"
    using ps(1) by (simp add: interface_valid_def elems_def)
  moreover have "non_nil_and_non_overlapping_prefix env (update_at ?g j ps) =
      non_nil_and_non_overlapping_prefix env ps"
    by (rule non_overlapping_update_at) simp
  moreover have "elems (Prefixes x) = ps"
    using ps(1) by (simp add: elems_def)
  ultimately have "non_nil_and_non_overlapping_prefix env
      (elems (Prefixes (defaults_InterfaceConfig x)))"
    by (simp add: elems_Prefixes_defaults non_overlapping_defaults)
  with u show ?thesis by simp
qed

section \<open>The claims\<close>

subsection \<open>C1: overlapping prefixes\<close>

text \<open>
  C1 says that defaultAndValidate returns an error for every configuration in which
  one interface carries two prefix entries whose prefixes overlap, two equal prefixes
  included. The constraint rejects two entries that parse to different overlapping
  prefixes (\<open>distinct_overlap_rejected\<close>), but it compares the parsed values with
  \<open>p0 != p1\<close> to skip the comparison of an entry with itself, and that also skips two
  entries with the same prefix. At the configuration with one interface \<open>net0\<close>
  (interval 100) whose two prefix entries are both \<open>2001:db8::/64\<close>,
  defaultAndValidate returns a nil error.
\<close>

theorem equal_prefixes_accepted:
  "prefix_at (interface_config ''net0'' 100
        (Some [Some (prefix_config ''2001:db8::/64'' None None),
               Some (prefix_config ''2001:db8::/64'' None None)])) 0
     = Some (prefix_config ''2001:db8::/64'' None None)
   \<and> prefix_at (interface_config ''net0'' 100
        (Some [Some (prefix_config ''2001:db8::/64'' None None),
               Some (prefix_config ''2001:db8::/64'' None None)])) 1
     = Some (prefix_config ''2001:db8::/64'' None None)
   \<and> ParsePrefix example_netlib ''2001:db8::/64'' = Some p64
   \<and> snd (defaultAndValidate example_netlib config_equal_prefixes) = None"
  by (simp add: eval_defs config_equal_prefixes_def prefix_at_def)

subsection \<open>C6: the advertisement interval\<close>

text \<open>
  C6, as amended: for every configuration and every interface in it (a non-nil element
  of \<open>Interfaces\<close>), defaultAndValidate returns an error when RAIntervalMilliseconds
  is not zero and lies below 70 or above 1800000. When it is zero (it is then replaced
  by the default 600000) or lies in [70, 1800000], no error is reported for the
  RAIntervalMilliseconds field of that interface. And defaultAndValidate returns a nil
  error exactly when the interval is zero or in [70, 1800000] and the rest of the
  configuration is valid (the configuration with this interval replaced by the default
  satisfies the invariants).
\<close>

theorem interval_bounds_enforced:
  assumes "iface_at c i = Some x"
  shows "(RAIntervalMilliseconds x \<noteq> 0 \<and>
            (RAIntervalMilliseconds x < 70 \<or> 1800000 < RAIntervalMilliseconds x)
          \<longrightarrow> snd (defaultAndValidate env c) \<noteq> None)
       \<and> (RAIntervalMilliseconds x = 0 \<or>
            (70 \<le> RAIntervalMilliseconds x \<and> RAIntervalMilliseconds x \<le> 1800000)
          \<longrightarrow> errors_at (ns_iface i @ [Fld ''RAIntervalMilliseconds''])
                (snd (defaultAndValidate env c)) = [])
       \<and> (snd (defaultAndValidate env c) = None \<longleftrightarrow>
            (RAIntervalMilliseconds x = 0 \<or>
              (70 \<le> RAIntervalMilliseconds x \<and> RAIntervalMilliseconds x \<le> 1800000))
            \<and> config_valid env (with_interval c i 600000))"
proof -
  let ?ns = "ns_iface i @ [Fld ''RAIntervalMilliseconds'']"
  let ?v = "RAIntervalMilliseconds (defaults_InterfaceConfig x)"
  have at: "errors_at ?ns (snd (defaultAndValidate env c)) =
     (if non_nil_and_unique_name (elems (Interfaces (defaults_Set c)))
      then run_tags ?ns [(''required'', ?v \<noteq> 0), (''gte'', 70 \<le> ?v), (''lte'', ?v \<le> 1800000)]
      else [])"
    unfolding errors_at_iface [OF assms] filter_RAInterval by simp
  have reject: "snd (defaultAndValidate env c) \<noteq> None"
    if "RAIntervalMilliseconds x \<noteq> 0"
      and "RAIntervalMilliseconds x < 70 \<or> 1800000 < RAIntervalMilliseconds x"
  proof (cases "non_nil_and_unique_name (elems (Interfaces (defaults_Set c)))")
    case True
    have "errors_at ?ns (snd (defaultAndValidate env c)) \<noteq> []"
      unfolding at using True that by (auto simp: RAInterval_defaults)
    then show ?thesis by (rule errors_at_rejected)
  next
    case False
    then show ?thesis by (rule not_unique_rejected [OF assms])
  qed
  have field: "errors_at ?ns (snd (defaultAndValidate env c)) = []"
    if "RAIntervalMilliseconds x = 0 \<or>
        (70 \<le> RAIntervalMilliseconds x \<and> RAIntervalMilliseconds x \<le> 1800000)"
    unfolding at using that by (auto simp: RAInterval_defaults)
  have accept: "snd (defaultAndValidate env c) = None \<longleftrightarrow>
            (RAIntervalMilliseconds x = 0 \<or>
              (70 \<le> RAIntervalMilliseconds x \<and> RAIntervalMilliseconds x \<le> 1800000))
            \<and> config_valid env (with_interval c i 600000)"
    unfolding accepted_iff by (rule config_valid_interval [OF assms])
  from reject field accept show ?thesis by blast
qed

text \<open>
  The theorem at an interval of 69 milliseconds (rejected) and at the second interface
  of the two-interface configuration with 100 milliseconds each (no error on the
  field, and the configuration is accepted).
\<close>

theorem interval_bounds_enforced_witness:
  "iface_at config_short_interval 0 = Some (interface_config ''net0'' 69 None)
   \<and> RAIntervalMilliseconds (interface_config ''net0'' 69 None) \<noteq> 0
   \<and> RAIntervalMilliseconds (interface_config ''net0'' 69 None) < 70
   \<and> snd (defaultAndValidate example_netlib config_short_interval) \<noteq> None
   \<and> iface_at config_happy_path 1 = Some (interface_config ''net1'' 100 None)
   \<and> 70 \<le> RAIntervalMilliseconds (interface_config ''net1'' 100 None)
   \<and> RAIntervalMilliseconds (interface_config ''net1'' 100 None) \<le> 1800000
   \<and> config_valid example_netlib (with_interval config_happy_path 1 600000)
   \<and> errors_at (ns_iface 1 @ [Fld ''RAIntervalMilliseconds''])
        (snd (defaultAndValidate example_netlib config_happy_path)) = []
   \<and> snd (defaultAndValidate example_netlib config_happy_path) = None"
proof -
  have a: "iface_at config_short_interval 0 = Some (interface_config ''net0'' 69 None)"
    by (simp add: config_short_interval_def iface_at_def elems_def)
  have b: "iface_at config_happy_path 1 = Some (interface_config ''net1'' 100 None)"
    by (simp add: config_happy_path_def iface_at_def elems_def)
  have v: "RAIntervalMilliseconds (interface_config ''net0'' 69 None) = 69"
     "RAIntervalMilliseconds (interface_config ''net1'' 100 None) = 100"
    by (simp_all add: interface_config_def)
  have w: "config_valid example_netlib (with_interval config_happy_path 1 600000)"
    by (simp add: valid_defs config_happy_path_def)
  from interval_bounds_enforced [OF a, of example_netlib] interval_bounds_enforced [OF b, of example_netlib] a b v w
  show ?thesis by (simp add: errors_at_def)
qed

text \<open>
  C6 as stated fails: an interface with RAIntervalMilliseconds 0, which is below 70, is
  accepted, because the zero is replaced by the default before validation.
\<close>

theorem zero_interval_accepted:
  "iface_at config_zero_interval 0 = Some (interface_config ''net0'' 0 None)
   \<and> RAIntervalMilliseconds (interface_config ''net0'' 0 None) < 70
   \<and> snd (defaultAndValidate example_netlib config_zero_interval) = None"
  by (simp add: eval_defs config_zero_interval_def iface_at_def)

subsection \<open>C7: unique, non-nil interfaces\<close>

text \<open>
  C7: for every configuration whose \<open>Interfaces\<close> slice contains a nil element or two
  interface configurations with the same Name, defaultAndValidate returns an error:
  the single validation error of the constraint \<open>non_nil_and_unique_name\<close> on
  \<open>Config.Interfaces\<close>.
\<close>

theorem nil_or_duplicate_interface_rejected:
  assumes "Interfaces c = Some xs"
    and "None \<in> set xs \<or>
         (\<exists>i j a b. i < j \<and> j < length xs \<and> xs ! i = Some a \<and> xs ! j = Some b \<and> Name a = Name b)"
  shows "snd (defaultAndValidate env c) =
         Some [FieldError [Fld ''Config'', Fld ''Interfaces''] ''non_nil_and_unique_name'']"
proof -
  have "\<not> non_nil_and_unique_name (map (map_option defaults_InterfaceConfig) xs)"
    using assms(2) nil_not_unique duplicate_not_unique by blast
  then show ?thesis
    using assms(1)
    by (simp add: defaultAndValidate_def validate_Struct_def Interfaces_defaults_Set Let_def)
qed

text \<open>
  The theorem at two interfaces that are both named \<open>net0\<close>, and at a slice whose
  second element is nil.
\<close>

theorem nil_or_duplicate_interface_rejected_witness:
  "Interfaces config_same_name =
     Some [Some (interface_config ''net0'' 100 None), Some (interface_config ''net0'' 5 None)]
   \<and> Name (interface_config ''net0'' 100 None) = Name (interface_config ''net0'' 5 None)
   \<and> snd (defaultAndValidate example_netlib config_same_name) =
       Some [FieldError [Fld ''Config'', Fld ''Interfaces''] ''non_nil_and_unique_name'']
   \<and> Interfaces config_nil_element = Some [Some (interface_config ''net0'' 100 None), None]
   \<and> snd (defaultAndValidate example_netlib config_nil_element) =
       Some [FieldError [Fld ''Config'', Fld ''Interfaces''] ''non_nil_and_unique_name'']"
proof -
  let ?xs = "[Some (interface_config ''net0'' 100 None), Some (interface_config ''net0'' 5 None)]"
  have a: "Interfaces config_same_name = Some ?xs"
    by (simp add: config_same_name_def)
  have n: "Name (interface_config ''net0'' 100 None) = Name (interface_config ''net0'' 5 None)"
    by (simp add: interface_config_def)
  have b: "None \<in> set ?xs \<or>
         (\<exists>i j a b. i < j \<and> j < length ?xs \<and> ?xs ! i = Some a \<and> ?xs ! j = Some b \<and> Name a = Name b)"
  proof -
    have "(0::nat) < 1 \<and> 1 < length ?xs \<and> ?xs ! 0 = Some (interface_config ''net0'' 100 None)
        \<and> ?xs ! 1 = Some (interface_config ''net0'' 5 None)
        \<and> Name (interface_config ''net0'' 100 None) = Name (interface_config ''net0'' 5 None)"
      using n by simp
    then show ?thesis by blast
  qed
  let ?ys = "[Some (interface_config ''net0'' 100 None), None]"
  have c: "Interfaces config_nil_element = Some ?ys"
    by (simp add: config_nil_element_def)
  have d: "None \<in> set ?ys \<or>
         (\<exists>i j a b. i < j \<and> j < length ?ys \<and> ?ys ! i = Some a \<and> ?ys ! j = Some b \<and> Name a = Name b)"
    by simp
  from nil_or_duplicate_interface_rejected [OF a b, of example_netlib]
    nil_or_duplicate_interface_rejected [OF c d, of example_netlib] a c n
  show ?thesis by simp
qed

subsection \<open>C8: the lifetime pair\<close>

text \<open>
  C8: for every prefix configuration of every interface of a configuration,
  defaultAndValidate returns an error whenever the preferred lifetime exceeds the
  valid lifetime. Whenever 0 \<le> preferred \<le> valid \<le> 4294967295 it reports no error
  for the ValidLifetimeSeconds and PreferredLifetimeSeconds fields of that prefix, and
  it returns a nil error exactly when the pair satisfies these bounds and the rest of
  the configuration is valid (the configuration with the two pointers set to nil
  satisfies the invariants). When the rest is valid and a non-negative preferred
  lifetime exceeds the valid one, the error on the PreferredLifetimeSeconds field is
  the one of \<open>ltefield\<close>. The lifetimes are the effective ones: the value pointed
  to, or the default for a nil pointer.
\<close>

theorem lifetime_pair_enforced:
  assumes "iface_at c i = Some x" and "prefix_at x j = Some p"
  shows "(effective_valid p < effective_preferred p
          \<longrightarrow> snd (defaultAndValidate env c) \<noteq> None)
       \<and> (0 \<le> effective_preferred p \<and> effective_preferred p \<le> effective_valid p
            \<and> effective_valid p \<le> 4294967295
          \<longrightarrow> errors_at (ns_prefix i j @ [Fld ''ValidLifetimeSeconds''])
                (snd (defaultAndValidate env c)) = []
            \<and> errors_at (ns_prefix i j @ [Fld ''PreferredLifetimeSeconds''])
                (snd (defaultAndValidate env c)) = [])
       \<and> (snd (defaultAndValidate env c) = None \<longleftrightarrow>
            0 \<le> effective_preferred p \<and> effective_preferred p \<le> effective_valid p
            \<and> effective_valid p \<le> 4294967295
            \<and> config_valid env (with_lifetimes c i j None None))
       \<and> (0 \<le> effective_preferred p \<and> effective_valid p < effective_preferred p
            \<and> config_valid env (with_lifetimes c i j None None)
          \<longrightarrow> errors_at (ns_prefix i j @ [Fld ''PreferredLifetimeSeconds''])
                (snd (defaultAndValidate env c)) =
              [FieldError (ns_prefix i j @ [Fld ''PreferredLifetimeSeconds'']) ''ltefield''])"
proof -
  let ?nsV = "ns_prefix i j @ [Fld ''ValidLifetimeSeconds'']"
  let ?nsP = "ns_prefix i j @ [Fld ''PreferredLifetimeSeconds'']"
  let ?ok = "non_nil_and_unique_name (elems (Interfaces (defaults_Set c)))
         \<and> non_nil_and_non_overlapping_prefix env (elems (Prefixes (defaults_InterfaceConfig x)))"
  let ?vl = "effective_valid p" and ?pl = "effective_preferred p"
  have atV: "errors_at ?nsV (snd (defaultAndValidate env c)) =
     (if ?ok then run_tags ?nsV [(''required'', True), (''gte'', 0 \<le> ?vl), (''lte'', ?vl \<le> 4294967295)]
      else [])"
    unfolding errors_at_prefix [OF assms] filter_ValidLifetime
    by (simp add: ValidLifetime_defaults validate_lifetime_def)
  have atP: "errors_at ?nsP (snd (defaultAndValidate env c)) =
     (if ?ok then run_tags ?nsP [(''required'', True), (''gte'', 0 \<le> ?pl), (''ltefield'', ?pl \<le> ?vl)]
      else [])"
    unfolding errors_at_prefix [OF assms] filter_PreferredLifetime
    by (simp add: ValidLifetime_defaults PreferredLifetime_defaults validate_lifetime_def
        ltefield_def)
  have reject: "snd (defaultAndValidate env c) \<noteq> None" if "?vl < ?pl"
  proof (cases ?ok)
    case True
    have "errors_at ?nsP (snd (defaultAndValidate env c)) \<noteq> []"
      unfolding atP using True that by auto
    then show ?thesis by (rule errors_at_rejected)
  next
    case False
    then show ?thesis
      using not_unique_rejected [OF assms(1)] overlap_rejected [OF assms(1)] by blast
  qed
  have field: "errors_at ?nsV (snd (defaultAndValidate env c)) = []
      \<and> errors_at ?nsP (snd (defaultAndValidate env c)) = []"
    if "0 \<le> ?pl \<and> ?pl \<le> ?vl \<and> ?vl \<le> 4294967295"
    unfolding atV atP using that by auto
  have accept: "snd (defaultAndValidate env c) = None \<longleftrightarrow>
            0 \<le> ?pl \<and> ?pl \<le> ?vl \<and> ?vl \<le> 4294967295
            \<and> config_valid env (with_lifetimes c i j None None)"
    unfolding accepted_iff using config_valid_lifetimes [OF assms, of env] by simp
  have exact: "errors_at ?nsP (snd (defaultAndValidate env c)) = [FieldError ?nsP ''ltefield'']"
    if "0 \<le> ?pl \<and> ?vl < ?pl \<and> config_valid env (with_lifetimes c i j None None)"
  proof -
    from that have ?ok using config_valid_reaches_prefix [OF assms] by blast
    then show ?thesis unfolding atP using that by simp
  qed
  from reject field accept exact show ?thesis by blast
qed

text \<open>
  The theorem at a prefix with valid 100 and preferred 200 (rejected with the
  \<open>ltefield\<close> error), and at one with valid 200 and preferred 100 (no error on
  either field, and the configuration is accepted).
\<close>

theorem lifetime_pair_enforced_witness:
  "iface_at (config_lifetimes (Some 100) (Some 200)) 0 =
     Some (interface_config ''net0'' 0 (Some [Some (prefix_config ''2001:db8::/64'' (Some 100) (Some 200))]))
   \<and> prefix_at (interface_config ''net0'' 0
        (Some [Some (prefix_config ''2001:db8::/64'' (Some 100) (Some 200))])) 0 =
       Some (prefix_config ''2001:db8::/64'' (Some 100) (Some 200))
   \<and> 0 \<le> effective_preferred (prefix_config ''2001:db8::/64'' (Some 100) (Some 200))
   \<and> effective_valid (prefix_config ''2001:db8::/64'' (Some 100) (Some 200))
       < effective_preferred (prefix_config ''2001:db8::/64'' (Some 100) (Some 200))
   \<and> config_valid example_netlib (with_lifetimes (config_lifetimes (Some 100) (Some 200)) 0 0 None None)
   \<and> snd (defaultAndValidate example_netlib (config_lifetimes (Some 100) (Some 200))) \<noteq> None
   \<and> errors_at (ns_prefix 0 0 @ [Fld ''PreferredLifetimeSeconds''])
        (snd (defaultAndValidate example_netlib (config_lifetimes (Some 100) (Some 200)))) =
       [FieldError (ns_prefix 0 0 @ [Fld ''PreferredLifetimeSeconds'']) ''ltefield'']
   \<and> iface_at (config_lifetimes (Some 200) (Some 100)) 0 =
     Some (interface_config ''net0'' 0 (Some [Some (prefix_config ''2001:db8::/64'' (Some 200) (Some 100))]))
   \<and> prefix_at (interface_config ''net0'' 0
        (Some [Some (prefix_config ''2001:db8::/64'' (Some 200) (Some 100))])) 0 =
       Some (prefix_config ''2001:db8::/64'' (Some 200) (Some 100))
   \<and> 0 \<le> effective_preferred (prefix_config ''2001:db8::/64'' (Some 200) (Some 100))
   \<and> effective_preferred (prefix_config ''2001:db8::/64'' (Some 200) (Some 100))
       \<le> effective_valid (prefix_config ''2001:db8::/64'' (Some 200) (Some 100))
   \<and> effective_valid (prefix_config ''2001:db8::/64'' (Some 200) (Some 100)) \<le> 4294967295
   \<and> config_valid example_netlib (with_lifetimes (config_lifetimes (Some 200) (Some 100)) 0 0 None None)
   \<and> errors_at (ns_prefix 0 0 @ [Fld ''ValidLifetimeSeconds''])
        (snd (defaultAndValidate example_netlib (config_lifetimes (Some 200) (Some 100)))) = []
   \<and> errors_at (ns_prefix 0 0 @ [Fld ''PreferredLifetimeSeconds''])
        (snd (defaultAndValidate example_netlib (config_lifetimes (Some 200) (Some 100)))) = []
   \<and> snd (defaultAndValidate example_netlib (config_lifetimes (Some 200) (Some 100))) = None"
proof -
  let ?p = "prefix_config ''2001:db8::/64'' (Some 100) (Some 200)"
  let ?q = "prefix_config ''2001:db8::/64'' (Some 200) (Some 100)"
  have a: "iface_at (config_lifetimes (Some 100) (Some 200)) 0 =
      Some (interface_config ''net0'' 0 (Some [Some ?p]))"
    by (simp add: config_lifetimes_def iface_at_def elems_def)
  have b: "prefix_at (interface_config ''net0'' 0 (Some [Some ?p])) 0 = Some ?p"
    by (simp add: interface_config_def prefix_at_def elems_def)
  have c: "iface_at (config_lifetimes (Some 200) (Some 100)) 0 =
      Some (interface_config ''net0'' 0 (Some [Some ?q]))"
    by (simp add: config_lifetimes_def iface_at_def elems_def)
  have d: "prefix_at (interface_config ''net0'' 0 (Some [Some ?q])) 0 = Some ?q"
    by (simp add: interface_config_def prefix_at_def elems_def)
  have v: "effective_valid ?p = 100" "effective_preferred ?p = 200"
      "effective_valid ?q = 200" "effective_preferred ?q = 100"
    by (simp_all add: effective_valid_def effective_preferred_def prefix_config_def)
  have w: "config_valid example_netlib (with_lifetimes (config_lifetimes (Some 100) (Some 200)) 0 0 None None)"
      "config_valid example_netlib (with_lifetimes (config_lifetimes (Some 200) (Some 100)) 0 0 None None)"
    by (simp_all add: valid_defs config_lifetimes_def)
  from lifetime_pair_enforced [OF a b, of example_netlib] lifetime_pair_enforced [OF c d, of example_netlib] a b c d v w
  show ?thesis by (simp add: errors_at_def)
qed

subsection \<open>C9: parsing does not validate\<close>

text \<open>
  C9: for every input that the decoder turns into a Config, ParseConfigJSON and
  ParseConfigYAML return exactly that Config with a nil error, whatever the Config is
  (nothing about it is checked), and ParseConfigYAMLFile does so for a file that opens;
  each returns an error exactly when decoding fails or, for the file, when opening
  fails.
\<close>

theorem parse_does_not_validate:
  "(\<forall>c. json_Decode r = Inr c \<longrightarrow> ParseConfigJSON json_Decode r = Inr c)
   \<and> (isl (ParseConfigJSON json_Decode r) \<longleftrightarrow> isl (json_Decode r))
   \<and> (\<forall>c. yaml_Decode r = Inr c \<longrightarrow> ParseConfigYAML yaml_Decode r = Inr c)
   \<and> (isl (ParseConfigYAML yaml_Decode r) \<longleftrightarrow> isl (yaml_Decode r))
   \<and> (\<forall>f c. os_Open path = Inr f \<and> yaml_Decode f = Inr c \<longrightarrow>
         ParseConfigYAMLFile os_Open yaml_Decode path = Inr c)
   \<and> (isl (ParseConfigYAMLFile os_Open yaml_Decode path) \<longleftrightarrow>
         isl (os_Open path) \<or> (\<exists>f. os_Open path = Inr f \<and> isl (yaml_Decode f)))"
  by (auto simp: ParseConfigJSON_def ParseConfigYAML_def ParseConfigYAMLFile_def
      split: sum.splits)

text \<open>
  The theorem at inputs whose decoded configuration validation rejects: the JSON text
  \<open>{}\<close> (a nil \<open>Interfaces\<close> slice) and a YAML text with two interfaces of the same
  name, one of them with an interval of 5 milliseconds.
\<close>

theorem parse_does_not_validate_witness:
  "example_json_Decode ''{}'' = Inr \<lparr>Interfaces = None\<rparr>
   \<and> snd (defaultAndValidate example_netlib \<lparr>Interfaces = None\<rparr>) \<noteq> None
   \<and> ParseConfigJSON example_json_Decode ''{}'' = Inr \<lparr>Interfaces = None\<rparr>
   \<and> example_yaml_Decode example_yaml = Inr config_same_name
   \<and> snd (defaultAndValidate example_netlib config_same_name) \<noteq> None
   \<and> ParseConfigYAML example_yaml_Decode example_yaml = Inr config_same_name
   \<and> example_Open ''/etc/ra.yaml'' = Inr example_yaml
   \<and> ParseConfigYAMLFile example_Open example_yaml_Decode ''/etc/ra.yaml'' = Inr config_same_name"
proof -
  have j: "example_json_Decode ''{}'' = Inr \<lparr>Interfaces = None\<rparr>"
    by (simp add: example_json_Decode_def)
  have a: "example_yaml_Decode example_yaml = Inr config_same_name"
    by (simp add: example_yaml_Decode_def)
  have b: "example_Open ''/etc/ra.yaml'' = Inr example_yaml"
    by (simp add: example_Open_def)
  have c: "snd (defaultAndValidate example_netlib config_same_name) \<noteq> None"
    by (simp add: eval_defs config_same_name_def)
  have d: "snd (defaultAndValidate example_netlib \<lparr>Interfaces = None\<rparr>) \<noteq> None"
    by (simp add: eval_defs)
  from parse_does_not_validate
    [of example_json_Decode "''{}''" example_yaml_Decode example_Open "''/etc/ra.yaml''"]
  have "ParseConfigJSON example_json_Decode ''{}'' = Inr \<lparr>Interfaces = None\<rparr>"
    using j by blast
  moreover
  from parse_does_not_validate
    [of example_yaml_Decode example_yaml example_yaml_Decode example_Open "''/etc/ra.yaml''"]
  have "ParseConfigYAML example_yaml_Decode example_yaml = Inr config_same_name"
    and "ParseConfigYAMLFile example_Open example_yaml_Decode ''/etc/ra.yaml'' = Inr config_same_name"
    using a b by blast+
  ultimately show ?thesis using j a b c d by simp
qed

subsection \<open>C10: defaults are filled before validation\<close>

text \<open>
  C10: defaultAndValidate fills the defaults before it validates. For every interface
  of a configuration, the interface it leaves in the configuration has
  RAIntervalMilliseconds 600000 when the field was zero (and the given value
  otherwise), and every prefix of it has ValidLifetimeSeconds 2592000 and
  PreferredLifetimeSeconds 604800 where the pointer was nil (and the given value
  otherwise). No \<open>required\<close> error is ever reported for these three fields; an omitted
  interval produces no error on its field at all, and neither do two omitted
  lifetimes.
\<close>

theorem defaults_filled_before_validation:
  assumes "iface_at c i = Some x"
  shows "\<exists>x'. iface_at (fst (defaultAndValidate env c)) i = Some x'
      \<and> RAIntervalMilliseconds x' =
          (if RAIntervalMilliseconds x = 0 then 600000 else RAIntervalMilliseconds x)
      \<and> required_free (errors_at (ns_iface i @ [Fld ''RAIntervalMilliseconds''])
          (snd (defaultAndValidate env c)))
      \<and> (RAIntervalMilliseconds x = 0 \<longrightarrow>
           errors_at (ns_iface i @ [Fld ''RAIntervalMilliseconds''])
             (snd (defaultAndValidate env c)) = [])
      \<and> (\<forall>j p. prefix_at x j = Some p \<longrightarrow>
           (\<exists>p'. prefix_at x' j = Some p'
             \<and> ValidLifetimeSeconds p' =
                 Some (case ValidLifetimeSeconds p of None \<Rightarrow> 2592000 | Some v \<Rightarrow> v)
             \<and> PreferredLifetimeSeconds p' =
                 Some (case PreferredLifetimeSeconds p of None \<Rightarrow> 604800 | Some v \<Rightarrow> v)
             \<and> required_free (errors_at (ns_prefix i j @ [Fld ''ValidLifetimeSeconds''])
                 (snd (defaultAndValidate env c)))
             \<and> required_free (errors_at (ns_prefix i j @ [Fld ''PreferredLifetimeSeconds''])
                 (snd (defaultAndValidate env c)))
             \<and> (ValidLifetimeSeconds p = None \<and> PreferredLifetimeSeconds p = None \<longrightarrow>
                  errors_at (ns_prefix i j @ [Fld ''ValidLifetimeSeconds''])
                    (snd (defaultAndValidate env c)) = []
                  \<and> errors_at (ns_prefix i j @ [Fld ''PreferredLifetimeSeconds''])
                    (snd (defaultAndValidate env c)) = [])))"
proof -
  let ?x' = "defaults_InterfaceConfig x"
  let ?r = "snd (defaultAndValidate env c)"
  let ?nsI = "ns_iface i @ [Fld ''RAIntervalMilliseconds'']"
  have x': "iface_at (fst (defaultAndValidate env c)) i = Some ?x'"
    using assms by (simp add: fst_defaultAndValidate iface_at_defaults)
  have v': "RAIntervalMilliseconds ?x' =
      (if RAIntervalMilliseconds x = 0 then 600000 else RAIntervalMilliseconds x)"
    by (rule RAInterval_defaults)
  have atI: "errors_at ?nsI ?r =
     (if non_nil_and_unique_name (elems (Interfaces (defaults_Set c)))
      then run_tags ?nsI [(''required'', RAIntervalMilliseconds ?x' \<noteq> 0),
             (''gte'', 70 \<le> RAIntervalMilliseconds ?x'),
             (''lte'', RAIntervalMilliseconds ?x' \<le> 1800000)]
      else [])"
    unfolding errors_at_iface [OF assms] filter_RAInterval by simp
  have reqI: "required_free (errors_at ?nsI ?r)"
    unfolding atI by (simp add: required_free_def v')
  have omitI: "errors_at ?nsI ?r = []" if "RAIntervalMilliseconds x = 0"
    unfolding atI using that by (simp add: v')
  have pre: "\<exists>p'. prefix_at ?x' j = Some p'
             \<and> ValidLifetimeSeconds p' =
                 Some (case ValidLifetimeSeconds p of None \<Rightarrow> 2592000 | Some v \<Rightarrow> v)
             \<and> PreferredLifetimeSeconds p' =
                 Some (case PreferredLifetimeSeconds p of None \<Rightarrow> 604800 | Some v \<Rightarrow> v)
             \<and> required_free (errors_at (ns_prefix i j @ [Fld ''ValidLifetimeSeconds'']) ?r)
             \<and> required_free (errors_at (ns_prefix i j @ [Fld ''PreferredLifetimeSeconds'']) ?r)
             \<and> (ValidLifetimeSeconds p = None \<and> PreferredLifetimeSeconds p = None \<longrightarrow>
                  errors_at (ns_prefix i j @ [Fld ''ValidLifetimeSeconds'']) ?r = []
                  \<and> errors_at (ns_prefix i j @ [Fld ''PreferredLifetimeSeconds'']) ?r = [])"
    if p: "prefix_at x j = Some p" for j p
  proof -
    let ?p' = "defaults_PrefixConfig p"
    let ?nsV = "ns_prefix i j @ [Fld ''ValidLifetimeSeconds'']"
    let ?nsP = "ns_prefix i j @ [Fld ''PreferredLifetimeSeconds'']"
    let ?ok = "non_nil_and_unique_name (elems (Interfaces (defaults_Set c)))
         \<and> non_nil_and_non_overlapping_prefix env (elems (Prefixes (defaults_InterfaceConfig x)))"
    let ?vl = "effective_valid p" and ?pl = "effective_preferred p"
    have p': "prefix_at ?x' j = Some ?p'"
      using p by (simp add: prefix_at_defaults)
    have atV: "errors_at ?nsV ?r =
       (if ?ok then run_tags ?nsV [(''required'', True), (''gte'', 0 \<le> ?vl), (''lte'', ?vl \<le> 4294967295)]
        else [])"
      unfolding errors_at_prefix [OF assms p] filter_ValidLifetime
      by (simp add: ValidLifetime_defaults validate_lifetime_def)
    have atP: "errors_at ?nsP ?r =
       (if ?ok then run_tags ?nsP [(''required'', True), (''gte'', 0 \<le> ?pl), (''ltefield'', ?pl \<le> ?vl)]
        else [])"
      unfolding errors_at_prefix [OF assms p] filter_PreferredLifetime
      by (simp add: ValidLifetime_defaults PreferredLifetime_defaults validate_lifetime_def
          ltefield_def)
    have reqV: "required_free (errors_at ?nsV ?r)"
      unfolding atV by (simp add: required_free_def)
    have reqP: "required_free (errors_at ?nsP ?r)"
      unfolding atP by (simp add: required_free_def)
    have omit: "errors_at ?nsV ?r = [] \<and> errors_at ?nsP ?r = []"
      if "ValidLifetimeSeconds p = None \<and> PreferredLifetimeSeconds p = None"
      unfolding atV atP using that by (simp add: effective_valid_def effective_preferred_def)
    have "ValidLifetimeSeconds ?p' =
        Some (case ValidLifetimeSeconds p of None \<Rightarrow> 2592000 | Some v \<Rightarrow> v)"
      by (simp add: ValidLifetime_defaults effective_valid_def)
    moreover have "PreferredLifetimeSeconds ?p' =
        Some (case PreferredLifetimeSeconds p of None \<Rightarrow> 604800 | Some v \<Rightarrow> v)"
      by (simp add: PreferredLifetime_defaults effective_preferred_def)
    ultimately show ?thesis using p' reqV reqP omit by blast
  qed
  from x' v' reqI omitI pre show ?thesis by blast
qed

text \<open>
  The theorem at a configuration that omits all three fields: one interface with
  interval 0 and one prefix with both lifetime pointers nil. The defaults appear in the
  configuration and validation returns a nil error.
\<close>

theorem defaults_filled_before_validation_witness:
  "iface_at (config_lifetimes None None) 0 =
     Some (interface_config ''net0'' 0 (Some [Some (prefix_config ''2001:db8::/64'' None None)]))
   \<and> RAIntervalMilliseconds
       (interface_config ''net0'' 0 (Some [Some (prefix_config ''2001:db8::/64'' None None)])) = 0
   \<and> prefix_at (interface_config ''net0'' 0
        (Some [Some (prefix_config ''2001:db8::/64'' None None)])) 0 =
       Some (prefix_config ''2001:db8::/64'' None None)
   \<and> ValidLifetimeSeconds (prefix_config ''2001:db8::/64'' None None) = None
   \<and> PreferredLifetimeSeconds (prefix_config ''2001:db8::/64'' None None) = None
   \<and> (\<exists>x' p'. iface_at (fst (defaultAndValidate example_netlib (config_lifetimes None None))) 0
          = Some x'
        \<and> RAIntervalMilliseconds x' = 600000
        \<and> prefix_at x' 0 = Some p'
        \<and> ValidLifetimeSeconds p' = Some 2592000
        \<and> PreferredLifetimeSeconds p' = Some 604800)
   \<and> errors_at (ns_iface 0 @ [Fld ''RAIntervalMilliseconds''])
        (snd (defaultAndValidate example_netlib (config_lifetimes None None))) = []
   \<and> errors_at (ns_prefix 0 0 @ [Fld ''ValidLifetimeSeconds''])
        (snd (defaultAndValidate example_netlib (config_lifetimes None None))) = []
   \<and> errors_at (ns_prefix 0 0 @ [Fld ''PreferredLifetimeSeconds''])
        (snd (defaultAndValidate example_netlib (config_lifetimes None None))) = []
   \<and> snd (defaultAndValidate example_netlib (config_lifetimes None None)) = None"
proof -
  let ?p = "prefix_config ''2001:db8::/64'' None None"
  let ?x = "interface_config ''net0'' 0 (Some [Some ?p])"
  let ?c = "config_lifetimes None None"
  have a: "iface_at ?c 0 = Some ?x"
    by (simp add: config_lifetimes_def iface_at_def elems_def)
  have b: "prefix_at ?x 0 = Some ?p"
    by (simp add: interface_config_def prefix_at_def elems_def)
  have z: "RAIntervalMilliseconds ?x = 0"
    by (simp add: interface_config_def)
  have n: "ValidLifetimeSeconds ?p = None" "PreferredLifetimeSeconds ?p = None"
    by (simp_all add: prefix_config_def)
  have ok: "snd (defaultAndValidate example_netlib ?c) = None"
    by (simp add: eval_defs config_lifetimes_def)
  from defaults_filled_before_validation [OF a, of example_netlib] obtain x' where
    x': "iface_at (fst (defaultAndValidate example_netlib ?c)) 0 = Some x'"
      "RAIntervalMilliseconds x' =
         (if RAIntervalMilliseconds ?x = 0 then 600000 else RAIntervalMilliseconds ?x)"
      "RAIntervalMilliseconds ?x = 0 \<longrightarrow>
         errors_at (ns_iface 0 @ [Fld ''RAIntervalMilliseconds''])
           (snd (defaultAndValidate example_netlib ?c)) = []"
    and pre: "\<forall>j p. prefix_at ?x j = Some p \<longrightarrow>
           (\<exists>p'. prefix_at x' j = Some p'
             \<and> ValidLifetimeSeconds p' =
                 Some (case ValidLifetimeSeconds p of None \<Rightarrow> 2592000 | Some v \<Rightarrow> v)
             \<and> PreferredLifetimeSeconds p' =
                 Some (case PreferredLifetimeSeconds p of None \<Rightarrow> 604800 | Some v \<Rightarrow> v)
             \<and> required_free (errors_at (ns_prefix 0 j @ [Fld ''ValidLifetimeSeconds''])
                 (snd (defaultAndValidate example_netlib ?c)))
             \<and> required_free (errors_at (ns_prefix 0 j @ [Fld ''PreferredLifetimeSeconds''])
                 (snd (defaultAndValidate example_netlib ?c)))
             \<and> (ValidLifetimeSeconds p = None \<and> PreferredLifetimeSeconds p = None \<longrightarrow>
                  errors_at (ns_prefix 0 j @ [Fld ''ValidLifetimeSeconds''])
                    (snd (defaultAndValidate example_netlib ?c)) = []
                  \<and> errors_at (ns_prefix 0 j @ [Fld ''PreferredLifetimeSeconds''])
                    (snd (defaultAndValidate example_netlib ?c)) = []))"
    by blast
  from pre b obtain p' where
    p': "prefix_at x' 0 = Some p'"
      "ValidLifetimeSeconds p' =
         Some (case ValidLifetimeSeconds ?p of None \<Rightarrow> 2592000 | Some v \<Rightarrow> v)"
      "PreferredLifetimeSeconds p' =
         Some (case PreferredLifetimeSeconds ?p of None \<Rightarrow> 604800 | Some v \<Rightarrow> v)"
      "ValidLifetimeSeconds ?p = None \<and> PreferredLifetimeSeconds ?p = None \<longrightarrow>
                  errors_at (ns_prefix 0 0 @ [Fld ''ValidLifetimeSeconds''])
                    (snd (defaultAndValidate example_netlib ?c)) = []
                  \<and> errors_at (ns_prefix 0 0 @ [Fld ''PreferredLifetimeSeconds''])
                    (snd (defaultAndValidate example_netlib ?c)) = []"
    by blast
  have "\<exists>x' p'. iface_at (fst (defaultAndValidate example_netlib ?c)) 0 = Some x'
        \<and> RAIntervalMilliseconds x' = 600000
        \<and> prefix_at x' 0 = Some p'
        \<and> ValidLifetimeSeconds p' = Some 2592000
        \<and> PreferredLifetimeSeconds p' = Some 604800"
    using x'(1,2) p'(1,2,3) z n by auto
  then show ?thesis using a b z n ok x'(3) p'(4) by simp
qed

end
